theory Spec2Isabelle
  imports Complex_Main "HOL-Library.Word"
begin

unbundle bit_operations_syntax

section \<open>The LightWave object exporter (io_export_lwo.py)\<close>

text \<open>
  A shallow embedding of the exporter. Python \<open>bytes\<close> are lists of 8-bit words, Python
  \<open>str\<close> values are \<open>string\<close>s (one \<open>char\<close> per code point, so code points below 256),
  Python integers are \<open>int\<close>, and every exception of the source is a value of \<open>error\<close>
  returned on the left of a sum.
\<close>

subsection \<open>Bytes, errors, sequencing\<close>

type_synonym byte = "8 word"
type_synonym bytes = "byte list"

datatype error =
  StructError | TypeError | AttributeError | ValueError | IndexError | KeyError | OverflowError

definition ebind :: "error + 'a \<Rightarrow> ('a \<Rightarrow> error + 'b) \<Rightarrow> error + 'b" where
  "ebind m f = (case m of Inl e \<Rightarrow> Inl e | Inr x \<Rightarrow> f x)"

text \<open>A value that is either \<open>bytes\<close> or \<open>str\<close>: \<open>len\<close> accepts both, a binary
  file accepts only the first.\<close>

datatype pydata = PyBytes bytes | PyStr string

fun len :: "pydata \<Rightarrow> nat" where
  "len (PyBytes b) = length b"
| "len (PyStr s) = length s"

subsection \<open>struct.pack and bytes(s, 'UTF-8')\<close>

text \<open>\<open>be_bytes k n\<close>: the \<open>k\<close> low-order bytes of \<open>n\<close>, most significant first.\<close>

fun be_bytes :: "nat \<Rightarrow> nat \<Rightarrow> bytes" where
  "be_bytes 0 n = []"
| "be_bytes (Suc k) n = be_bytes k (n div 256) @ [of_nat (n mod 256)]"

text \<open>Reading a big-endian byte string back as a number.\<close>

definition be_decode :: "bytes \<Rightarrow> nat" where
  "be_decode bs = foldl (\<lambda>a b. a * 256 + unat b) 0 bs"

text \<open>\<open>struct.pack(">H", n)\<close>, \<open>struct.pack(">L", n)\<close> and \<open>struct.pack(">h", n)\<close>:
  \<open>struct.error\<close> when the number is outside the format's range.\<close>

definition pack_H :: "int \<Rightarrow> error + bytes" where
  "pack_H n = (if 0 \<le> n \<and> n < 65536 then Inr (be_bytes 2 (nat n)) else Inl StructError)"

definition pack_L :: "int \<Rightarrow> error + bytes" where
  "pack_L n = (if 0 \<le> n \<and> n < 4294967296 then Inr (be_bytes 4 (nat n)) else Inl StructError)"

definition pack_h :: "int \<Rightarrow> error + bytes" where
  "pack_h n = (if - 32768 \<le> n \<and> n < 32768 then Inr (be_bytes 2 (nat (n mod 65536)))
               else Inl StructError)"

text \<open>UTF-8 of a code point below 256: one byte below 128, two bytes from there on.\<close>

definition utf8_char :: "char \<Rightarrow> bytes" where
  "utf8_char c = (let n = (of_char c :: nat) in
     if n < 128 then [of_nat n] else [of_nat (192 + n div 64), of_nat (128 + n mod 64)])"

definition utf8 :: "string \<Rightarrow> bytes" where
  "utf8 s = concat (map utf8_char s)"

text \<open>A bytes literal such as \<open>b"FORM"\<close>: one byte per (ASCII) character.\<close>

definition bytes_lit :: "string \<Rightarrow> bytes" where
  "bytes_lit s = map of_char s"

subsection \<open>Python loops and sequences\<close>

text \<open>\<open>for x in xs: body\<close>, the variables the body assigns passed along as a state; the
  first exception ends the loop.\<close>

fun for_each :: "('a \<Rightarrow> 's \<Rightarrow> error + 's) \<Rightarrow> 'a list \<Rightarrow> 's \<Rightarrow> error + 's" where
  "for_each body [] s = Inr s"
| "for_each body (x # xs) s = ebind (body x s) (for_each body xs)"

text \<open>\<open>xs[i]\<close> with Python's negative indices; \<open>IndexError\<close> out of range.\<close>

definition py_get :: "'a list \<Rightarrow> int \<Rightarrow> error + 'a" where
  "py_get xs i =
     (if 0 \<le> i \<and> i < int (length xs) then Inr (xs ! nat i)
      else if i < 0 \<and> - int (length xs) \<le> i then Inr (xs ! nat (int (length xs) + i))
      else Inl IndexError)"

text \<open>\<open>xs.index(x)\<close>: the first position of \<open>x\<close>; \<open>ValueError\<close> when absent.\<close>

fun py_index :: "'a list \<Rightarrow> 'a \<Rightarrow> error + nat" where
  "py_index [] x = Inl ValueError"
| "py_index (y # ys) x =
     (if y = x then Inr 0 else ebind (py_index ys x) (\<lambda>i. Inr (Suc i)))"

text \<open>\<open>min(xs)\<close> and \<open>max(xs)\<close>: the first smallest and the first largest element;
  \<open>ValueError\<close> on an empty sequence.\<close>

fun py_min :: "('f::linorder) list \<Rightarrow> error + 'f" where
  "py_min [] = Inl ValueError"
| "py_min (x # xs) = Inr (foldl (\<lambda>m y. if y < m then y else m) x xs)"

fun py_max :: "('f::linorder) list \<Rightarrow> error + 'f" where
  "py_max [] = Inl ValueError"
| "py_max (x # xs) = Inr (foldl (\<lambda>m y. if m < y then y else m) x xs)"

text \<open>\<open>s.replace(a, b)\<close> for one-character \<open>a\<close> and \<open>b\<close>, \<open>s.lower()\<close> on code points
  below 256, and \<open>s.endswith(t)\<close>.\<close>

definition replace_char :: "char \<Rightarrow> char \<Rightarrow> string \<Rightarrow> string" where
  "replace_char a b s = map (\<lambda>c. if c = a then b else c) s"

definition lower_char :: "char \<Rightarrow> char" where
  "lower_char c = (let n = (of_char c :: nat) in
     if (65 \<le> n \<and> n \<le> 90) \<or> (192 \<le> n \<and> n \<le> 222 \<and> n \<noteq> 215) then char_of (n + 32) else c)"

definition lower :: "string \<Rightarrow> string" where
  "lower s = map lower_char s"

definition endswith :: "string \<Rightarrow> string \<Rightarrow> bool" where
  "endswith s t = (length t \<le> length s \<and> drop (length s - length t) s = t)"

subsection \<open>The scene as the host hands it over\<close>

text \<open>
  Floats are values of a type \<open>'f\<close> of which only the order and the multiplication are
  used; their 32-bit packing is a function of the host. Indices the host provides (vertex,
  polygon, loop and material-slot indices) are natural numbers.
\<close>

record polygon =
  p_index :: nat
  p_vertices :: "nat list"
  p_loop_indices :: "nat list"
  p_material_index :: nat

text \<open>An edge of the \<open>bmesh\<close> built from the mesh: its two vertices and the faces linked
  to it.\<close>

record edge =
  e_verts :: "nat \<times> nat"
  e_link_faces :: "nat list"

record material =
  mat_name :: string

record 'f uv_layer =
  uv_name :: string
  uv_data :: "('f \<times> 'f) list"

record 'f color_layer =
  vc_name :: string
  vc_data :: "('f \<times> 'f \<times> 'f \<times> 'f) list"

text \<open>\<open>m_id\<close> is the identity of the mesh datablock: \<open>m == mesh\<close> compares it.\<close>

record 'f mesh =
  m_id :: nat
  m_vertices :: "('f \<times> 'f \<times> 'f) list"
  m_polygons :: "polygon list"
  m_edges :: "edge list"
  m_materials :: "material option list"
  m_vertex_colors :: "'f color_layer list"
  m_uv_layers :: "'f uv_layer list"

text \<open>A duplicated object ready for export: the name of the object it was duplicated from
  (\<open>object_name_lookup_orig[objdup]\<close>) and its mesh (\<open>objdup.data\<close>).\<close>

record 'f object =
  o_name :: string
  o_data :: "'f mesh"

text \<open>What the try block of \<open>generate_mesh_surface\<close> computes from the host's material.\<close>

record 'f shading =
  sh_R :: 'f
  sh_G :: 'f
  sh_B :: 'f
  sh_diff :: 'f
  sh_lumi :: 'f
  sh_spec :: 'f
  sh_gloss :: 'f
  sh_sman :: 'f
  sh_vcmenu :: string

text \<open>
  The host: \<open>struct.pack(">f", x)\<close> (\<open>OverflowError\<close> when \<open>x\<close> does not fit), float
  literals, \<open>==\<close> on the host's 2-vectors, \<open>bpy.data.objects.get(name).location\<close>, the
  outcome of the try block of \<open>generate_mesh_surface\<close> (\<open>None\<close> when anything in it
  raises), and \<open>os.path.dirname\<close> and \<open>os.sep\<close>.
\<close>

record 'f host =
  pack_f :: "'f \<Rightarrow> error + bytes"
  flit :: "real \<Rightarrow> 'f"
  vec_eq :: "'f \<times> 'f \<Rightarrow> 'f \<times> 'f \<Rightarrow> bool"
  object_location :: "string \<Rightarrow> ('f \<times> 'f \<times> 'f) option"
  material_shading :: "'f mesh \<Rightarrow> string \<Rightarrow> 'f shading option"
  os_path_dirname :: "string \<Rightarrow> string"
  os_sep :: string

text \<open>\<open>posixpath.dirname\<close>, the \<open>os.path.dirname\<close> of a POSIX host.\<close>

definition posix_dirname :: "string \<Rightarrow> string" where
  "posix_dirname p =
     (let i = length p - length (takeWhile (\<lambda>c. c \<noteq> CHR ''/'') (rev p));
          head = take i p
      in if head \<noteq> [] \<and> head \<noteq> replicate (length head) CHR ''/''
         then rev (dropWhile (\<lambda>c. c = CHR ''/'') (rev head)) else head)"

text \<open>The options of the operator that the export reads, and the attributes that exist on
  the instance by name (\<open>self.NAME\<close>).\<close>

record 'f exporter =
  option_subd :: bool
  option_batch :: bool
  option_scale :: 'f
  filepath :: string
  attrs :: "string \<Rightarrow> string option"

definition self_getattr :: "('f, 'x) exporter_scheme \<Rightarrow> string \<Rightarrow> error + string" where
  "self_getattr self name =
     (case attrs self name of None \<Rightarrow> Inl AttributeError | Some v \<Rightarrow> Inr v)"

subsection \<open>LWO export helper functions\<close>

text \<open>\<open>data.write(x)\<close> on a buffer, and a run of such writes.\<close>

definition emit :: "error + bytes \<Rightarrow> bytes \<Rightarrow> error + bytes" where
  "emit x data = ebind x (\<lambda>b. Inr (data @ b))"

definition emits :: "(error + bytes) list \<Rightarrow> bytes \<Rightarrow> error + bytes" where
  "emits xs data = for_each emit xs data"

text \<open>\<open>struct.pack(">ff...", x, y, ...)\<close>.\<close>

definition pack_floats :: "'f host \<Rightarrow> 'f list \<Rightarrow> error + bytes" where
  "pack_floats H xs = emits (map (pack_f H) xs) []"

definition generate_nstring :: "string \<Rightarrow> string" where
  "generate_nstring string =
     (if length string mod 2 = 0 then string @ [CHR 0x00, CHR 0x00]
      else string @ [CHR 0x00])"

definition write_chunk :: "bytes \<Rightarrow> string \<Rightarrow> pydata \<Rightarrow> error + bytes" where
  "write_chunk dest_file name data =
     ebind (pack_L (int (len data))) (\<lambda>l.
       case data of
         PyBytes b \<Rightarrow> Inr (dest_file @ utf8 name @ l @ b)
       | PyStr s \<Rightarrow> Inl TypeError)"

definition write_header :: "bytes \<Rightarrow> pydata list \<Rightarrow> error + bytes" where
  "write_header dest_file chunks =
     (let total_chunk_size = sum_list (map len chunks);
          form_size = total_chunk_size + length chunks * 8 + length ''FORM''
      in ebind (pack_L (int form_size)) (\<lambda>l.
           Inr (dest_file @ bytes_lit ''FORM'' @ l @ bytes_lit ''LWO2'')))"

definition generate_vx :: "int \<Rightarrow> error + bytes" where
  "generate_vx index =
     (if index < 0xFF00 then pack_H index
      else pack_L (index OR 0xFF000000))"

definition generate_vertex_colors :: "'f host \<Rightarrow> 'f mesh \<Rightarrow> error + bytes list" where
  "generate_vertex_colors H mesh =
     for_each (\<lambda>layer alldata.
        ebind (emits [Inr (bytes_lit ''RGBA''), pack_H 4,
                      Inr (utf8 (generate_nstring (vc_name layer)))] []) (\<lambda>data.
        ebind (for_each (\<lambda>(face_idx, face). for_each (\<lambda>(vert_idx, loop) (data, found).
                  ebind (py_get (vc_data layer) (int loop)) (\<lambda>(r, g, b, a).
                  ebind (emits [generate_vx (int vert_idx), generate_vx (int face_idx),
                                pack_floats H [r, g, b, a]] data) (\<lambda>data.
                  Inr (data, True))))
                (zip (p_vertices face) (p_loop_indices face)))
              (enumerate 0 (m_polygons mesh)) (data, False)) (\<lambda>(data, found).
        Inr (if found then alldata @ [data] else alldata))))
      (m_vertex_colors mesh) []"

definition generate_mesh_surface :: "'f host \<Rightarrow> 'f mesh \<Rightarrow> string \<Rightarrow> error + bytes" where
  "generate_mesh_surface H mesh material_name =
     (let (material, sh) =
        (case material_shading H mesh material_name of
           Some sh \<Rightarrow> (True, sh)
         | None \<Rightarrow> (False,
             \<lparr>sh_R = flit H 1.0, sh_G = flit H 1.0, sh_B = flit H 1.0, sh_diff = flit H 1.0,
              sh_lumi = flit H 0.0, sh_spec = flit H 0.2, sh_gloss = flit H 0.0,
              sh_sman = flit H 0.0, sh_vcmenu = []\<rparr>))
      in emits
        ([Inr (utf8 (generate_nstring material_name)),
          Inr (bytes_lit ''COLR''), pack_H 0,
          Inr (bytes_lit ''COLR''), pack_H 14, pack_floats H [sh_R sh, sh_G sh, sh_B sh], pack_H 0,
          Inr (bytes_lit ''DIFF''), pack_H 6, pack_floats H [sh_diff sh], pack_H 0,
          Inr (bytes_lit ''LUMI''), pack_H 6, pack_floats H [sh_lumi sh], pack_H 0,
          Inr (bytes_lit ''SPEC''), pack_H 6, pack_floats H [sh_spec sh], pack_H 0,
          Inr (bytes_lit ''GLOS''), pack_H 6, pack_floats H [sh_gloss sh], pack_H 0]
         @ (if material \<and> sh_vcmenu sh \<noteq> ''<none>'' then
              [Inr (bytes_lit ''VCOL''),
               ebind (emits [pack_floats H [flit H 1.0], pack_H 0, Inr (bytes_lit ''RGBA''),
                             Inr (utf8 (generate_nstring (sh_vcmenu sh)))] []) (\<lambda>data_tmp.
                 emits [pack_H (int (length data_tmp)), Inr data_tmp] [])]
            else [])
         @ [Inr (bytes_lit ''SMAN''), pack_H 4, pack_floats H [sh_sman sh]]) [])"

definition DEFAULT_NAME :: string where
  "DEFAULT_NAME = ''Blender Default''"

text \<open>\<open>generate_default_surf(self)\<close> takes one positional argument.\<close>

definition generate_default_surf :: "'f host \<Rightarrow> 'a \<Rightarrow> error + bytes" where
  "generate_default_surf H self =
     emits
       [Inr (utf8 (generate_nstring DEFAULT_NAME)),
        Inr (bytes_lit ''COLR''), pack_H 14,
        pack_floats H [flit H 0.9, flit H 0.9, flit H 0.9], pack_H 0,
        Inr (bytes_lit ''DIFF''), pack_H 6, pack_floats H [flit H 0.8], pack_H 0,
        Inr (bytes_lit ''LUMI''), pack_H 6, pack_floats H [flit H 0], pack_H 0,
        Inr (bytes_lit ''SPEC''), pack_H 6, pack_floats H [flit H 0.4], pack_H 0,
        Inr (bytes_lit ''GLOS''), pack_H 6, pack_floats H [flit H 0.4], pack_H 0] []"

subsection \<open>Main export class: the chunk generators\<close>

definition get_used_material_names ::
  "'f exporter \<Rightarrow> 'f mesh list \<Rightarrow> error + ('f mesh list \<times> string list)" where
  "get_used_material_names self meshes =
     for_each (\<lambda>mesh (matmeshes, matnames).
        if m_materials mesh \<noteq> [] then
          for_each (\<lambda>material (matmeshes, matnames).
             case material of
               Some mat \<Rightarrow> Inr (matmeshes @ [mesh], matnames @ [mat_name mat])
             | None \<Rightarrow> Inr (matmeshes, matnames))
            (m_materials mesh) (matmeshes, matnames)
        else if m_vertex_colors mesh \<noteq> [] then
          ebind (self_getattr self ''LWO_VCOLOR_MATERIAL'') (\<lambda>name.
            Inr (matmeshes @ [mesh], matnames @ [name]))
        else
          ebind (self_getattr self ''LWO_DEFAULT_MATERIAL'') (\<lambda>name.
            Inr (matmeshes @ [mesh], matnames @ [name])))
      meshes ([], [])"

definition generate_tags :: "string list \<Rightarrow> pydata" where
  "generate_tags material_names =
     (if material_names \<noteq> [] then
        PyBytes (concat (map (\<lambda>mat. utf8 (generate_nstring mat)) material_names))
      else PyStr (generate_nstring ''''))"

text \<open>The default branch calls \<open>generate_default_surf()\<close> with no argument, which raises
  \<open>TypeError\<close> before the function body runs.\<close>

definition generate_surface :: "'f host \<Rightarrow> 'f mesh \<Rightarrow> string \<Rightarrow> error + bytes" where
  "generate_surface H mesh name =
     (if name = DEFAULT_NAME then Inl TypeError
      else generate_mesh_surface H mesh name)"

definition generate_layr :: "'f host \<Rightarrow> string \<Rightarrow> int \<Rightarrow> error + bytes" where
  "generate_layr H name idx =
     (case object_location H name of
        None \<Rightarrow> Inl AttributeError
      | Some (px, py, pz) \<Rightarrow>
          emits [pack_h idx, pack_h 0, pack_floats H [px, pz, py],
                 Inr (utf8 (generate_nstring
                   (replace_char CHR ''.'' CHR ''_'' (replace_char CHR '' '' CHR ''_'' name))))] [])"

definition generate_pnts :: "('f::{times,linorder}) host \<Rightarrow> 'f exporter \<Rightarrow> 'f mesh \<Rightarrow> error + bytes" where
  "generate_pnts H self mesh =
     for_each (\<lambda>(i, (x, y, z)) data.
        let x = x * option_scale self; y = y * option_scale self; z = z * option_scale self
        in emit (pack_floats H [x, z, y]) data)
      (enumerate 0 (m_vertices mesh)) []"

definition generate_bbox :: "('f::{times,linorder}) host \<Rightarrow> 'f exporter \<Rightarrow> 'f mesh \<Rightarrow> error + bytes" where
  "generate_bbox H self mesh =
     (let (xx, yy, zz) =
        (if m_vertices mesh \<noteq> [] then
           (let nv = m_vertices mesh
            in (map (\<lambda>co. fst co * option_scale self) nv,
                map (\<lambda>co. fst (snd co) * option_scale self) nv,
                map (\<lambda>co. snd (snd co) * option_scale self) nv))
         else ([flit H 0.0], [flit H 0.0], [flit H 0.0]))
      in ebind (py_min xx) (\<lambda>min_xx. ebind (py_min zz) (\<lambda>min_zz. ebind (py_min yy) (\<lambda>min_yy.
         ebind (py_max xx) (\<lambda>max_xx. ebind (py_max zz) (\<lambda>max_zz. ebind (py_max yy) (\<lambda>max_yy.
           emit (pack_floats H [min_xx, min_zz, min_yy, max_xx, max_zz, max_yy]) [])))))))"

text \<open>\<open>generate_vmad_uv\<close>, from the inside out: the body of the loop over the corners of
  polygon \<open>p\<close> (number \<open>i\<close>) for layer \<open>l\<close>, the scan of one layer (its \<open>data\<close> and
  \<open>found\<close>), and the loop over the layers.\<close>

definition vmad_uv_corner ::
  "'f host \<Rightarrow> 'f uv_layer \<Rightarrow> nat \<Rightarrow> polygon \<Rightarrow> nat \<times> nat \<Rightarrow> bytes \<times> bool \<Rightarrow> error + (bytes \<times> bool)" where
  "vmad_uv_corner H l i p = (\<lambda>(v, loop) (data, found).
     let searchl = p_loop_indices p @ p_loop_indices p in
     ebind (py_index searchl loop) (\<lambda>pos.
     ebind (py_get searchl (int pos - 1)) (\<lambda>prevl.
     ebind (py_get searchl (int pos + 1)) (\<lambda>nextl.
     ebind (py_get (uv_data l) (int loop)) (\<lambda>youv.
     ebind (ebind (py_get (uv_data l) (int prevl)) (\<lambda>prevuv.
              if vec_eq H prevuv youv
              then ebind (py_get (uv_data l) (int nextl)) (\<lambda>nextuv.
                     Inr (vec_eq H youv nextuv))
              else Inr False)) (\<lambda>skip.
     if skip then Inr (data, found)
     else ebind (emits [generate_vx (int v), generate_vx (int i),
                        pack_floats H [fst youv, snd youv]] data) (\<lambda>data.
          Inr (data, True))))))))"

definition vmad_uv_layer :: "'f host \<Rightarrow> 'f mesh \<Rightarrow> 'f uv_layer \<Rightarrow> error + (bytes \<times> bool)" where
  "vmad_uv_layer H mesh l =
     (let uvname = generate_nstring (uv_name l) in
      ebind (emits [Inr (bytes_lit ''TXUV''), pack_H 2, Inr (utf8 uvname)] []) (\<lambda>data.
      for_each (\<lambda>(i, p). for_each (vmad_uv_corner H l i p)
                  (zip (p_vertices p) (p_loop_indices p)))
        (enumerate 0 (m_polygons mesh)) (data, False)))"

definition generate_vmad_uv :: "'f host \<Rightarrow> 'f mesh \<Rightarrow> error + bytes list" where
  "generate_vmad_uv H mesh =
     for_each (\<lambda>l alldata.
        ebind (vmad_uv_layer H mesh l) (\<lambda>(data, found).
        Inr (if found then alldata @ [data] else alldata)))
      (m_uv_layers mesh) []"

definition generate_pols :: "'f mesh \<Rightarrow> bool \<Rightarrow> error + bytes" where
  "generate_pols mesh subd =
     (let data = (if subd then bytes_lit ''SUBD'' else bytes_lit ''FACE'') in
      ebind (for_each (\<lambda>(i, p) data.
               ebind (emit (pack_H (int (length (p_vertices p)))) data) (\<lambda>data.
               let numfaceverts = length (p_vertices p); p_vi = p_vertices p in
               for_each (\<lambda>j data. emit (generate_vx (int (p_vi ! j))) data)
                 (rev [0..<numfaceverts]) data))
             (enumerate 0 (m_polygons mesh)) data) (\<lambda>data.
      for_each (\<lambda>e data.
         if length (e_link_faces e) = 0 then
           emits [pack_H 2, generate_vx (int (fst (e_verts e))),
                  generate_vx (int (snd (e_verts e)))] data
         else Inr data)
        (m_edges mesh) data))"

definition generate_ptag :: "'f mesh \<Rightarrow> string list \<Rightarrow> error + bytes" where
  "generate_ptag mesh material_names =
     for_each (\<lambda>poly data.
        if m_materials mesh \<noteq> [] then
          (let matindex = p_material_index poly in
           ebind (py_get (m_materials mesh) (int matindex)) (\<lambda>mat.
           ebind (case mat of None \<Rightarrow> Inl AttributeError | Some m \<Rightarrow> Inr (mat_name m)) (\<lambda>matname.
           ebind (py_index material_names matname) (\<lambda>surfindex.
           emits [generate_vx (int (p_index poly)), pack_H (int surfindex)] data))))
        else
          emits [generate_vx (int (p_index poly)), pack_H 0] data)
      (m_polygons mesh) (bytes_lit ''SURF'')"

subsection \<open>Main export class: writing the files\<close>

text \<open>\<open>mesh_object_name_lookup\<close>, the dictionary from each duplicated mesh to the name of
  the object it came from; \<open>d[mesh]\<close> raises \<open>KeyError\<close> for a mesh that was never entered.\<close>

definition mesh_object_name_lookup :: "'f object list \<Rightarrow> nat \<Rightarrow> string option" where
  "mesh_object_name_lookup objdups =
     foldl (\<lambda>d obj. d(m_id (o_data obj) \<mapsto> o_name obj)) Map.empty objdups"

definition lookup_object_name :: "'f object list \<Rightarrow> 'f mesh \<Rightarrow> error + string" where
  "lookup_object_name objdups mesh =
     (case mesh_object_name_lookup objdups (m_id mesh) of
        None \<Rightarrow> Inl KeyError | Some name \<Rightarrow> Inr name)"

text \<open>\<open>write_chunk(meshdata, name, data); chunks.append(data)\<close>, for a run of chunks: the
  state is \<open>meshdata\<close> and \<open>chunks\<close>.\<close>

definition write_chunks ::
  "(string \<times> bytes) list \<Rightarrow> bytes \<times> pydata list \<Rightarrow> error + (bytes \<times> pydata list)" where
  "write_chunks named =
     for_each (\<lambda>(name, data) (meshdata, chunks).
        ebind (write_chunk meshdata name (PyBytes data)) (\<lambda>meshdata.
        Inr (meshdata, chunks @ [PyBytes data])))
       named"

text \<open>The second half of one turn of the loop "Generate LWO chunks": the chunks of the
  layer are written to \<open>meshdata\<close> and appended to \<open>chunks\<close>; the vertex colours are
  generated between BBOX and POLS.\<close>

definition write_layer ::
  "'f host \<Rightarrow> 'f mesh \<Rightarrow> bytes \<Rightarrow> bytes \<Rightarrow> bytes \<Rightarrow> bytes \<Rightarrow> bytes \<Rightarrow> bytes list \<Rightarrow>
   bytes \<times> pydata list \<Rightarrow> error + (bytes \<times> pydata list)" where
  "write_layer H mesh layr pnts bbox pols ptag vmad_uvs s =
     ebind (write_chunks [(''LAYR'', layr), (''PNTS'', pnts), (''BBOX'', bbox)] s) (\<lambda>s.
     ebind (if m_vertex_colors mesh \<noteq> [] then
              ebind (generate_vertex_colors H mesh) (\<lambda>vcs.
                write_chunks (map (\<lambda>vmad. (''VMAD'', vmad)) vcs) s)
            else Inr s) (\<lambda>s.
     ebind (write_chunks [(''POLS'', pols), (''PTAG'', ptag)] s) (\<lambda>s.
     if m_uv_layers mesh \<noteq> [] then
       write_chunks (map (\<lambda>vmad. (''VMAD'', vmad)) vmad_uvs) s
     else Inr s)))"

text \<open>One turn of the loop "Generate LWO chunks": the state is \<open>meshdata\<close>, \<open>chunks\<close>,
  \<open>surfs\<close> and \<open>layer_index\<close>.\<close>

definition export_mesh ::
  "('f::{times,linorder}) host \<Rightarrow> 'f exporter \<Rightarrow> 'f object list \<Rightarrow> 'f mesh list \<Rightarrow> string list \<Rightarrow>
   nat \<times> 'f mesh \<Rightarrow> bytes \<times> pydata list \<times> bytes list \<times> int \<Rightarrow>
   error + (bytes \<times> pydata list \<times> bytes list \<times> int)" where
  "export_mesh H self objdups matmeshes material_names = (\<lambda>(i, mesh) (meshdata, chunks, surfs, layer_index).
     ebind (if \<not> option_batch self then ebind (py_get objdups (int i)) (\<lambda>mobj. Inr ()) else Inr ()) (\<lambda>_.
     ebind (for_each (\<lambda>(j, m) surfs.
              if m_id m = m_id mesh then
                ebind (py_get material_names (int j)) (\<lambda>name.
                ebind (generate_surface H m name) (\<lambda>surf. Inr (surfs @ [surf])))
              else Inr surfs)
            (enumerate 0 matmeshes) surfs) (\<lambda>surfs.
     ebind (lookup_object_name objdups mesh) (\<lambda>name.
     ebind (generate_layr H name layer_index) (\<lambda>layr.
     ebind (generate_pnts H self mesh) (\<lambda>pnts.
     ebind (generate_bbox H self mesh) (\<lambda>bbox.
     ebind (generate_pols mesh (option_subd self)) (\<lambda>pols.
     ebind (generate_ptag mesh material_names) (\<lambda>ptag.
     ebind (if m_uv_layers mesh \<noteq> [] then generate_vmad_uv H mesh else Inr []) (\<lambda>vmad_uvs.
     ebind (write_layer H mesh layr pnts bbox pols ptag vmad_uvs (meshdata, chunks))
       (\<lambda>(meshdata, chunks).
     Inr (meshdata, chunks, surfs, layer_index + 1))))))))))))"

text \<open>"Write generated chunk data to the output file": the bytes of the file.\<close>

definition write_file :: "pydata list \<Rightarrow> pydata \<Rightarrow> bytes \<Rightarrow> pydata list \<Rightarrow> bytes list \<Rightarrow> error + bytes" where
  "write_file chunks tags meshdata clips surfs =
     ebind (write_header [] chunks) (\<lambda>outfile.
     ebind (write_chunk outfile ''TAGS'' tags) (\<lambda>outfile.
     let outfile = outfile @ meshdata in
     ebind (for_each (\<lambda>clip outfile. write_chunk outfile ''CLIP'' clip) clips outfile) (\<lambda>outfile.
     for_each (\<lambda>surf outfile. write_chunk outfile ''SURF'' (PyBytes surf)) surfs outfile)))"

text \<open>"Prepare the output file": the name of the file.\<close>

definition output_filename :: "'f host \<Rightarrow> 'f exporter \<Rightarrow> string \<Rightarrow> 'f object \<Rightarrow> string" where
  "output_filename H self filename obj =
     (let filename =
        (if option_batch self then
           os_path_dirname H filename @ (os_sep H @ replace_char CHR ''.'' CHR ''_'' (o_name obj))
         else filename)
      in if \<not> endswith (lower filename) ''.lwo'' then filename @ ''.lwo'' else filename)"

text \<open>One turn of the loop "Export each duplicated object", up to the file written: the new
  value of \<open>filename\<close> and the bytes written under that name.\<close>

definition export_file ::
  "('f::{times,linorder}) host \<Rightarrow> 'f exporter \<Rightarrow> 'f object list \<Rightarrow> 'f mesh list \<Rightarrow> string \<Rightarrow>
   'f object \<Rightarrow> error + (string \<times> bytes)" where
  "export_file H self objdups meshes filename obj =
     ebind (get_used_material_names self meshes) (\<lambda>(matmeshes, material_names).
     let clips = ([] :: pydata list);
         tags = generate_tags material_names;
         surfs = [];
         chunks = [tags];
         meshdata = [];
         layer_index = 0
     in
     ebind (for_each (export_mesh H self objdups matmeshes material_names)
              (enumerate 0 meshes) (meshdata, chunks, surfs, layer_index))
       (\<lambda>(meshdata, chunks, surfs, layer_index).
     let chunks = chunks @ clips;
         chunks = chunks @ map PyBytes surfs;
         filename = output_filename H self filename obj
     in
     ebind (write_file chunks tags meshdata clips surfs) (\<lambda>outfile.
     Inr (filename, outfile))))"

text \<open>The loop "Export each duplicated object": the files written, in order. Without
  batch export the first turn writes every mesh and the loop ends. The loop before it, which
  sorts the selected objects by name, duplicates the MESH objects among them and prepares the
  duplicates with the host's operators, is the host's work: the model starts from the
  duplicates \<open>objdups\<close>. Opening the output file is taken to succeed.\<close>

fun export_objects ::
  "('f::{times,linorder}) host \<Rightarrow> 'f exporter \<Rightarrow> 'f object list \<Rightarrow> 'f object list \<Rightarrow>
   'f mesh list \<Rightarrow> string \<Rightarrow> (string \<times> bytes) list \<Rightarrow> error + (string \<times> bytes) list" where
  "export_objects H self objdups [] meshes filename files = Inr files"
| "export_objects H self objdups (obj # rest) meshes filename files =
     (let meshes = (if option_batch self then [o_data obj] else meshes) in
      ebind (export_file H self objdups meshes filename obj) (\<lambda>(filename, outfile).
      let files = files @ [(filename, outfile)] in
      if \<not> option_batch self then Inr files
      else export_objects H self objdups rest meshes filename files))"

definition LwoExport_write ::
  "('f::{times,linorder}) host \<Rightarrow> 'f exporter \<Rightarrow> 'f object list \<Rightarrow> string \<Rightarrow>
   error + (string \<times> bytes) list" where
  "LwoExport_write H self objdups filename =
     (let meshes = (if \<not> option_batch self then map o_data objdups else [])
      in export_objects H self objdups objdups meshes filename [])"

text \<open>The string attributes the class body defines by name, the operator as the host
  creates it, and \<open>execute\<close>, which sets \<open>VCOL_NAME\<close> and writes (the modules
  \<open>struct\<close>, \<open>io\<close> and \<open>operator\<close> are taken to be importable).\<close>

definition LwoExport_class_attrs :: "string \<Rightarrow> string option" where
  "LwoExport_class_attrs =
     map_of [(''bl_idname'', ''export.lwo''), (''bl_label'', ''LwoExport''),
             (''bl_description'', ''Export Lightwave .lwo file''), (''filename_ext'', ''.lwo'')]"

definition LwoExport :: "bool \<Rightarrow> bool \<Rightarrow> 'f \<Rightarrow> string \<Rightarrow> 'f exporter" where
  "LwoExport subd batch scale path =
     \<lparr>option_subd = subd, option_batch = batch, option_scale = scale, filepath = path,
      attrs = LwoExport_class_attrs\<rparr>"

text \<open>\<open>self.VCOL_NAME = "Per-Face Vertex Colors"\<close>, the one attribute \<open>execute\<close> adds.\<close>

definition execute_self :: "'f exporter \<Rightarrow> 'f exporter" where
  "execute_self self = self\<lparr>attrs := (attrs self)(''VCOL_NAME'' \<mapsto> ''Per-Face Vertex Colors'')\<rparr>"

definition execute ::
  "('f::{times,linorder}) host \<Rightarrow> 'f exporter \<Rightarrow> 'f object list \<Rightarrow> error + (string \<times> bytes) list" where
  "execute H self objdups =
     (let self = execute_self self
      in LwoExport_write H self objdups (filepath self))"

text \<open>Reading the chunks of a written stream back: a 4-byte tag, a 4-byte big-endian
  length, and the payload of that length, until the stream ends.\<close>

function parse_chunks :: "bytes \<Rightarrow> (bytes \<times> bytes) list option" where
  "parse_chunks bs =
     (if bs = [] then Some []
      else if length bs < 8 then None
      else let n = be_decode (take 4 (drop 4 bs)); rest = drop 8 bs
           in if length rest < n then None
              else map_option (\<lambda>cs. (take 4 bs, take n rest) # cs) (parse_chunks (drop n rest)))"
  by pat_completeness auto
termination
  by (relation "measure length") auto

declare parse_chunks.simps [simp del]

subsection \<open>The format as the specification words it\<close>

text \<open>\<open>encodeVertexIndex(i)\<close>: "if \<open>i < 0xFF00\<close>, encode as unsigned 16-bit big-endian.
  Otherwise encode as unsigned 32-bit big-endian with the top byte forced to \<open>0xFF\<close>
  (i.e. \<open>i | 0xFF000000\<close>)".\<close>

definition encodeVertexIndex :: "nat \<Rightarrow> bytes" where
  "encodeVertexIndex i =
     (if i < 0xFF00 then be_bytes 2 i else be_bytes 4 (nat (int i OR 0xFF000000)))"

text \<open>The Polygons block: the tag, then per polygon the \<open>u16\<close> vertex count and the vertex
  indices in reverse authored order, then a 2-vertex entry for every edge that touches no
  face.\<close>

definition polygon_entry :: "polygon \<Rightarrow> bytes" where
  "polygon_entry p =
     be_bytes 2 (length (p_vertices p)) @ concat (map encodeVertexIndex (rev (p_vertices p)))"

definition loose_edge_entry :: "edge \<Rightarrow> bytes" where
  "loose_edge_entry e =
     be_bytes 2 2 @ encodeVertexIndex (fst (e_verts e)) @ encodeVertexIndex (snd (e_verts e))"

definition polygons_block :: "'f mesh \<Rightarrow> bool \<Rightarrow> bytes" where
  "polygons_block mesh subd =
     bytes_lit (if subd then ''SUBD'' else ''FACE'')
     @ concat (map polygon_entry (m_polygons mesh))
     @ concat (map loose_edge_entry (filter (\<lambda>e. e_link_faces e = []) (m_edges mesh)))"

text \<open>The Tag Table and the PolygonTagMap block: "tag \<open>SURF\<close> then per polygon, in polygon
  order: variable-width polygon index + \<open>u16\<close> surface index (resolved via the Tag Table;
  0 if mesh has no materials)". The position of a name in the table is its first one.\<close>

definition first_position :: "'a list \<Rightarrow> 'a \<Rightarrow> nat" where
  "first_position xs x = length (takeWhile (\<lambda>y. y \<noteq> x) xs)"

definition resolved_material_name :: "'f mesh \<Rightarrow> polygon \<Rightarrow> string" where
  "resolved_material_name mesh poly =
     (case m_materials mesh ! p_material_index poly of Some mat \<Rightarrow> mat_name mat | None \<Rightarrow> [])"

definition surface_index :: "'f mesh \<Rightarrow> string list \<Rightarrow> polygon \<Rightarrow> nat" where
  "surface_index mesh tag_table poly =
     (if m_materials mesh = [] then 0
      else first_position tag_table (resolved_material_name mesh poly))"

definition polygon_tag_map :: "'f mesh \<Rightarrow> string list \<Rightarrow> bytes" where
  "polygon_tag_map mesh tag_table =
     bytes_lit ''SURF''
     @ concat (map (\<lambda>poly. encodeVertexIndex (p_index poly)
                             @ be_bytes 2 (surface_index mesh tag_table poly))
                 (m_polygons mesh))"

text \<open>The names of the filled material slots of a mesh, in slot order.\<close>

definition material_slot_names :: "material option list \<Rightarrow> string list" where
  "material_slot_names mats =
     concat (map (\<lambda>m. case m of None \<Rightarrow> [] | Some mat \<Rightarrow> [mat_name mat]) mats)"

subsection \<open>A small scene to run the export on\<close>

text \<open>The single triangle with vertices \<open>(0,0,0)\<close>, \<open>(1,0,0)\<close>, \<open>(0,1,0)\<close> and one polygon
  \<open>[0,1,2]\<close>: without materials, with one material, and a second mesh of two triangles whose
  first material slot is empty.\<close>

definition example_triangle :: "real mesh" where
  "example_triangle =
     \<lparr>m_id = 0, m_vertices = [(0, 0, 0), (1, 0, 0), (0, 1, 0)],
      m_polygons = [\<lparr>p_index = 0, p_vertices = [0, 1, 2], p_loop_indices = [0, 1, 2],
                     p_material_index = 0\<rparr>],
      m_edges = [\<lparr>e_verts = (0, 1), e_link_faces = [0]\<rparr>,
                 \<lparr>e_verts = (1, 2), e_link_faces = [0]\<rparr>,
                 \<lparr>e_verts = (2, 0), e_link_faces = [0]\<rparr>],
      m_materials = [], m_vertex_colors = [], m_uv_layers = []\<rparr>"

definition example_red :: "real mesh" where
  "example_red = example_triangle\<lparr>m_id := 1, m_materials := [Some \<lparr>mat_name = ''Red''\<rparr>]\<rparr>"

definition example_two :: "real mesh" where
  "example_two =
     \<lparr>m_id = 2, m_vertices = [(0, 0, 0), (1, 0, 0), (0, 1, 0), (1, 1, 0)],
      m_polygons = [\<lparr>p_index = 0, p_vertices = [0, 1, 2], p_loop_indices = [0, 1, 2],
                     p_material_index = 1\<rparr>,
                    \<lparr>p_index = 1, p_vertices = [1, 3, 2], p_loop_indices = [3, 4, 5],
                     p_material_index = 2\<rparr>],
      m_edges = [],
      m_materials = [None, Some \<lparr>mat_name = ''Blue''\<rparr>, Some \<lparr>mat_name = ''Red''\<rparr>],
      m_vertex_colors = [], m_uv_layers = []\<rparr>"

text \<open>A host to evaluate with: floats are reals and pack as the four bytes of their rounded
  value (a stand-in for the IEEE encoding), vectors compare by equality, every object sits at
  the origin, the try block of \<open>generate_mesh_surface\<close> always raises, paths are POSIX.\<close>

definition example_host :: "real host" where
  "example_host =
     \<lparr>pack_f = (\<lambda>x. Inr (be_bytes 4 (nat \<lfloor>x\<rfloor>))),
      flit = (\<lambda>r. r),
      vec_eq = (\<lambda>a b. a = b),
      object_location = (\<lambda>name. Some (0, 0, 0)),
      material_shading = (\<lambda>mesh name. None),
      os_path_dirname = posix_dirname,
      os_sep = ''/''\<rparr>"







text \<open>The BoundingBox block: "min/max over all (scaled, axis-swapped) vertex coordinates in
  order (minX,minZ,minY,maxX,maxZ,maxY); if mesh has zero vertices, treat min=max=0 on all
  axes".\<close>

definition scaled_axis ::
  "('f::{times,linorder}) host \<Rightarrow> 'f exporter \<Rightarrow> 'f mesh \<Rightarrow> ('f \<times> 'f \<times> 'f \<Rightarrow> 'f) \<Rightarrow> 'f list" where
  "scaled_axis H self mesh axis =
     (if m_vertices mesh = [] then [flit H 0.0]
      else map (\<lambda>co. axis co * option_scale self) (m_vertices mesh))"

definition bounding_box_values ::
  "('f::{times,linorder}) host \<Rightarrow> 'f exporter \<Rightarrow> 'f mesh \<Rightarrow> 'f list" where
  "bounding_box_values H self mesh =
     (let xs = scaled_axis H self mesh fst;
          ys = scaled_axis H self mesh (\<lambda>co. fst (snd co));
          zs = scaled_axis H self mesh (\<lambda>co. snd (snd co))
      in [Min (set xs), Min (set zs), Min (set ys), Max (set xs), Max (set zs), Max (set ys)])"

text \<open>\<open>writeChunk(tag, payload)\<close>: "emits \<open>tag ++ u32be(len(payload)) ++ payload\<close>".\<close>

definition chunk_bytes :: "string \<times> bytes \<Rightarrow> bytes" where
  "chunk_bytes = (\<lambda>(tag, payload). utf8 tag @ be_bytes 4 (length payload) @ payload)"

text \<open>The size law of the container: "\<open>formSize = sum(len(c) for c in chunks) +
  8*len(chunks) + 4\<close>".\<close>

definition formSize :: "bytes list \<Rightarrow> nat" where
  "formSize chunks = sum_list (map length chunks) + 8 * length chunks + 4"

text \<open>The chunk tags this exporter writes per layer.\<close>

definition layer_tags :: "string set" where
  "layer_tags = {''LAYR'', ''PNTS'', ''BBOX'', ''VMAD'', ''POLS'', ''PTAG''}"

text \<open>The state \<open>(meshdata, chunks)\<close> has grown by a run of layer chunks: the same payloads
  were written to the stream and appended to the list.\<close>

definition grows :: "bytes \<times> pydata list \<Rightarrow> bytes \<times> pydata list \<Rightarrow> bool" where
  "grows s s' =
     (\<exists>named. fst s' = fst s @ concat (map chunk_bytes named)
        \<and> snd s' = snd s @ map (\<lambda>(t, c). PyBytes c) named
        \<and> (\<forall>(t, c) \<in> set named. t \<in> layer_tags \<and> length c < 4294967296))"

text \<open>The chunk tags this exporter writes at the top level of a file.\<close>

definition file_tags :: "string set" where
  "file_tags = insert ''TAGS'' (insert ''SURF'' layer_tags)"

section \<open>Properties\<close>

subsection \<open>Packing\<close>

lemma length_be_bytes: "length (be_bytes k n) = k"
  by (induction k arbitrary: n) simp_all

lemma be_bytes_2: "be_bytes 2 n = [of_nat (n div 256 mod 256), of_nat (n mod 256)]"
proof -
  have "be_bytes 2 n = be_bytes (Suc (Suc 0)) n"
    by (simp only: numeral_2_eq_2)
  then show ?thesis by simp
qed

lemma be_bytes_4:
  "be_bytes 4 n = [of_nat (n div 256 div 256 div 256 mod 256), of_nat (n div 256 div 256 mod 256),
                   of_nat (n div 256 mod 256), of_nat (n mod 256)]"
proof -
  have "be_bytes 4 n = be_bytes (Suc (Suc (Suc (Suc 0)))) n"
    by (simp only: numeral_eq_Suc pred_numeral_simps Num.BitM.simps)
  then show ?thesis by simp
qed

lemma be_decode_snoc: "be_decode (bs @ [b]) = be_decode bs * 256 + unat b"
  by (simp add: be_decode_def)

lemma unat_byte_of_mod: "unat (of_nat (n mod 256) :: byte) = n mod 256"
  by (simp add: unat_of_nat)

lemma be_decode_be_bytes: "n < 256 ^ k \<Longrightarrow> be_decode (be_bytes k n) = n"
proof (induction k arbitrary: n)
  case 0
  then show ?case by (simp add: be_decode_def)
next
  case (Suc k)
  from Suc.prems have "n div 256 < 256 ^ k"
    by (simp add: less_mult_imp_div_less mult.commute)
  then have "be_decode (be_bytes k (n div 256)) = n div 256"
    by (rule Suc.IH)
  then show ?case
    by (simp add: be_decode_snoc unat_byte_of_mod)
qed

subsection \<open>Names\<close>



text \<open>The lengths above are counted in characters, as \<open>len\<close> counts them. Encoded as
  UTF-8 a padded name with a character beyond ASCII can have an odd number of bytes.\<close>

lemma nstring_utf8_odd_example: "utf8 (generate_nstring [CHR 0xE9]) = [0xC3, 0xA9, 0]"
  by (simp add: generate_nstring_def utf8_def utf8_char_def)

subsection \<open>Variable-width indices\<close>

lemma or_255: fixes x :: int assumes "0 \<le> x" "x < 256" shows "x OR 255 = 255"
proof -
  have t: "take_bit 8 x = x" using assms by (simp add: take_bit_int_eq_self)
  have m: "(255::int) = mask 8" by (simp add: mask_eq_exp_minus_1)
  have "x OR mask 8 = mask 8"
  proof (rule bit_eqI)
    fix n
    have "bit x n \<longrightarrow> n < 8"
      by (metis t bit_take_bit_iff)
    then show "bit (x OR mask 8) n = bit (mask 8 :: int) n"
      by (auto simp add: bit_or_iff bit_mask_iff)
  qed
  with m show ?thesis by simp
qed

lemma or_ff_bounds:
  fixes i :: int
  assumes "0 \<le> i" "i < 4294967296"
  shows "0 \<le> i OR 0xFF000000" "i OR 0xFF000000 < 4294967296"
proof -
  show "0 \<le> i OR 0xFF000000" using assms by simp
  have "i OR 0xFF000000 < 2 ^ 32"
    by (rule OR_upper) (use assms in simp_all)
  then show "i OR 0xFF000000 < 4294967296" by simp
qed

lemma or_ff_top:
  fixes i :: int
  assumes "0 \<le> i" "i < 4294967296"
  shows "(i OR 0xFF000000) div 16777216 = 255"
proof -
  have "drop_bit 24 (i OR 0xFF000000) = drop_bit 24 i OR drop_bit 24 (0xFF000000 :: int)"
    by simp
  also have "drop_bit 24 (0xFF000000 :: int) = 255"
    by (simp add: drop_bit_eq_div)
  finally have e: "drop_bit 24 (i OR 0xFF000000) = drop_bit 24 i OR 255" .
  have b: "0 \<le> drop_bit 24 i" "drop_bit 24 i < 256"
    using assms by (simp_all add: drop_bit_eq_div)
  have "drop_bit 24 i OR 255 = 255"
    using b by (rule or_255)
  with e show ?thesis by (simp add: drop_bit_eq_div)
qed

lemma hd_be_bytes_4:
  assumes "n < 4294967296" shows "hd (be_bytes 4 n) = of_nat (n div 16777216)"
proof -
  have "n div 256 div 256 div 256 = n div 16777216"
    by (simp add: div_mult2_eq[symmetric])
  moreover have "n div 16777216 < 256" using assms by simp
  ultimately show ?thesis by (simp add: be_bytes_4)
qed

text \<open>
  C6 (as amended). For every index \<open>i\<close> with \<open>0 \<le> i < 0xFF00\<close>, \<open>generate_vx\<close> returns
  exactly 2 bytes, the unsigned 16-bit big-endian encoding of \<open>i\<close>; for every \<open>i\<close> with
  \<open>0xFF00 \<le> i < 2^32\<close> it returns exactly 4 bytes, the unsigned 32-bit big-endian encoding
  of \<open>i | 0xFF000000\<close>, whose top byte is \<open>0xFF\<close>; from \<open>2^32\<close> on the packing raises
  \<open>struct.error\<close>.
\<close>

theorem generate_vx_widths:
  "(0 \<le> i \<and> i < 0xFF00 \<longrightarrow>
      generate_vx i = Inr (be_bytes 2 (nat i)) \<and> length (be_bytes 2 (nat i)) = 2
      \<and> be_decode (be_bytes 2 (nat i)) = nat i)
   \<and> (0xFF00 \<le> i \<and> i < 4294967296 \<longrightarrow>
      generate_vx i = Inr (be_bytes 4 (nat (i OR 0xFF000000)))
      \<and> length (be_bytes 4 (nat (i OR 0xFF000000))) = 4
      \<and> hd (be_bytes 4 (nat (i OR 0xFF000000))) = 0xFF
      \<and> be_decode (be_bytes 4 (nat (i OR 0xFF000000))) = nat (i OR 0xFF000000))
   \<and> (4294967296 \<le> i \<longrightarrow> generate_vx i = Inl StructError)"
proof (intro conjI impI)
  assume a: "0 \<le> i \<and> i < 0xFF00"
  then show "generate_vx i = Inr (be_bytes 2 (nat i))"
    by (simp add: generate_vx_def pack_H_def)
  show "length (be_bytes 2 (nat i)) = 2" by (rule length_be_bytes)
  from a have "nat i < 65536" by linarith
  then have "nat i < 256 ^ 2" by simp
  then show "be_decode (be_bytes 2 (nat i)) = nat i" by (rule be_decode_be_bytes)
next
  assume a: "0xFF00 \<le> i \<and> i < 4294967296"
  then have i: "0 \<le> i" "i < 4294967296" by simp_all
  note b = or_ff_bounds[OF i]
  from a b show "generate_vx i = Inr (be_bytes 4 (nat (i OR 0xFF000000)))"
    by (simp add: generate_vx_def pack_L_def)
  show "length (be_bytes 4 (nat (i OR 0xFF000000))) = 4" by (rule length_be_bytes)
  from b have n: "nat (i OR 0xFF000000) < 4294967296" by simp
  have "nat (i OR 0xFF000000) div 16777216 = nat ((i OR 0xFF000000) div 16777216)"
    using b(1) by (simp add: nat_div_distrib)
  also have "\<dots> = 255" using or_ff_top[OF i] by simp
  finally show "hd (be_bytes 4 (nat (i OR 0xFF000000))) = 0xFF"
    using hd_be_bytes_4[OF n] by simp
  from n have "nat (i OR 0xFF000000) < 256 ^ 4" by simp
  then show "be_decode (be_bytes 4 (nat (i OR 0xFF000000))) = nat (i OR 0xFF000000)"
    by (rule be_decode_be_bytes)
next
  assume a: "4294967296 \<le> i"
  then have "i \<le> i OR 0xFF000000" by (simp add: or_greater_eq)
  with a show "generate_vx i = Inl StructError"
    by (simp add: generate_vx_def pack_L_def)
qed

theorem generate_vx_widths_witness:
  "(0 \<le> (0xFEFF::int) \<and> (0xFEFF::int) < 0xFF00) \<and> generate_vx 0xFEFF = Inr [0xFE, 0xFF]
   \<and> (0xFF00 \<le> (0xFF00::int) \<and> (0xFF00::int) < 4294967296) \<and> generate_vx 0xFF00 = Inr [0xFF, 0, 0xFF, 0]
   \<and> generate_vx 4294967296 = Inl StructError"
  using generate_vx_widths[of 65279] generate_vx_widths[of 65280] generate_vx_widths[of 4294967296]
  by (simp add: be_bytes_2 be_bytes_4)

text \<open>C6 as stated fails at \<open>i = 2^32\<close>: no 4 bytes are returned there.\<close>

theorem generate_vx_wide_counterexample:
  "(0xFF00::int) \<le> 4294967296 \<and> \<not> (\<exists>b. generate_vx 4294967296 = Inr b \<and> length b = 4)"
  by (simp add: generate_vx_def pack_L_def)


subsection \<open>Sequencing and loops\<close>

lemma ebind_Inr [simp]: "ebind (Inr x) f = f x"
  by (simp add: ebind_def)

lemma ebind_Inl [simp]: "ebind (Inl e) f = Inl e"
  by (simp add: ebind_def)

lemma ebind_eq_Inr: "ebind m f = Inr y \<longleftrightarrow> (\<exists>x. m = Inr x \<and> f x = Inr y)"
  by (cases m) simp_all

lemma emit_Inr [simp]: "emit (Inr b) data = Inr (data @ b)"
  by (simp add: emit_def)

lemma emit_Inl [simp]: "emit (Inl e) data = Inl e"
  by (simp add: emit_def)

lemma emits_Nil [simp]: "emits [] data = Inr data"
  by (simp add: emits_def)

lemma emits_Cons [simp]: "emits (x # xs) data = ebind (emit x data) (emits xs)"
proof -
  have "emits xs = (\<lambda>d. emits xs d)" by simp
  then show ?thesis unfolding emits_def by simp
qed

lemma for_each_append:
  "for_each body (xs @ ys) s = ebind (for_each body xs s) (for_each body ys)"
  by (induction xs arbitrary: s) (simp_all add: ebind_def split: sum.splits)

lemma for_each_bytes:
  assumes "\<And>x d. x \<in> set xs \<Longrightarrow> body x d = Inr (d @ g x)"
  shows "for_each body xs d = Inr (d @ concat (map g xs))"
  using assms by (induction xs arbitrary: d) simp_all

lemma for_each_cong:
  assumes "\<And>x s. x \<in> set xs \<Longrightarrow> body x s = body' x s"
  shows "for_each body xs s = for_each body' xs s"
  using assms
proof (induction xs arbitrary: s)
  case Nil
  then show ?case by simp
next
  case (Cons x xs)
  have "for_each body xs = for_each body' xs"
    using Cons by auto
  with Cons.prems show ?case by simp
qed

lemma for_each_enumerate_bytes:
  assumes "\<And>i x d. x \<in> set xs \<Longrightarrow> body (i, x) d = Inr (d @ g x)"
  shows "for_each body (enumerate n xs) d = Inr (d @ concat (map g xs))"
proof -
  have "for_each body (enumerate n xs) d = Inr (d @ concat (map (\<lambda>ix. g (snd ix)) (enumerate n xs)))"
  proof (rule for_each_bytes)
    fix ix d assume "ix \<in> set (enumerate n xs)"
    then have "snd ix \<in> snd ` set (enumerate n xs)" by (rule imageI)
    moreover have "snd ` set (enumerate n xs) = set xs"
      by (metis map_snd_enumerate set_map)
    ultimately have "snd ix \<in> set xs" by simp
    then have "body (fst ix, snd ix) d = Inr (d @ g (snd ix))" by (rule assms)
    then show "body ix d = Inr (d @ g (snd ix))" by simp
  qed
  moreover have "map (\<lambda>ix. g (snd ix)) (enumerate n xs) = map g xs"
    by (induction xs arbitrary: n) simp_all
  ultimately show ?thesis by simp
qed


subsection \<open>The Polygons block\<close>

lemma generate_vx_encode:
  assumes "n < 4294967296"
  shows "generate_vx (int n) = Inr (encodeVertexIndex n)"
proof (cases "n < 0xFF00")
  case True
  then show ?thesis
    by (simp add: generate_vx_def pack_H_def encodeVertexIndex_def)
next
  case False
  have "0 \<le> int n" "int n < 4294967296" using assms by simp_all
  note b = or_ff_bounds[OF this]
  from False b show ?thesis
    by (simp add: generate_vx_def pack_L_def encodeVertexIndex_def)
qed

lemma pack_H_nat: "n < 65536 \<Longrightarrow> pack_H (int n) = Inr (be_bytes 2 n)"
  by (simp add: pack_H_def)

lemma reversed_indices:
  "map (\<lambda>j. f (xs ! j)) (rev [0..<length xs]) = map f (rev xs)"
proof -
  have "map (\<lambda>j. f (xs ! j)) (rev [0..<length xs]) = map f (rev (map ((!) xs) [0..<length xs]))"
    by (simp add: rev_map)
  then show ?thesis by (simp only: map_nth)
qed

lemma polygon_loop:
  assumes "length (p_vertices p) < 65536"
    and "\<forall>v \<in> set (p_vertices p). v < 4294967296"
  shows "ebind (emit (pack_H (int (length (p_vertices p)))) data) (\<lambda>data.
           let numfaceverts = length (p_vertices p); p_vi = p_vertices p in
           for_each (\<lambda>j data. emit (generate_vx (int (p_vi ! j))) data)
             (rev [0..<numfaceverts]) data)
         = Inr (data @ polygon_entry p)"
proof -
  have "for_each (\<lambda>j data. emit (generate_vx (int (p_vertices p ! j))) data)
          (rev [0..<length (p_vertices p)]) d
        = Inr (d @ concat (map (\<lambda>j. encodeVertexIndex (p_vertices p ! j))
                             (rev [0..<length (p_vertices p)])))" for d
  proof (rule for_each_bytes)
    fix j d assume "j \<in> set (rev [0..<length (p_vertices p)])"
    then have "p_vertices p ! j \<in> set (p_vertices p)" by simp
    with assms(2) have "p_vertices p ! j < 4294967296" by blast
    then show "emit (generate_vx (int (p_vertices p ! j))) d
               = Inr (d @ encodeVertexIndex (p_vertices p ! j))"
      by (simp add: generate_vx_encode)
  qed
  then show ?thesis
    using assms(1) by (simp add: pack_H_nat polygon_entry_def reversed_indices)
qed

lemma edge_loop:
  assumes "fst (e_verts e) < 4294967296" "snd (e_verts e) < 4294967296"
  shows "(if length (e_link_faces e) = 0 then
           emits [pack_H 2, generate_vx (int (fst (e_verts e))),
                  generate_vx (int (snd (e_verts e)))] data
         else Inr data)
       = Inr (data @ (if e_link_faces e = [] then loose_edge_entry e else []))"
  using assms pack_H_nat[of 2]
  by (simp add: generate_vx_encode loose_edge_entry_def)

lemma concat_map_filter:
  "concat (map (\<lambda>e. if P e then g e else []) xs) = concat (map g (filter P xs))"
  by (induction xs) simp_all

text \<open>
  C4. The POLS payload begins with the tag \<open>FACE\<close> (\<open>SUBD\<close> in subpatch mode); then, for
  each polygon in mesh order, the \<open>u16\<close> vertex count and the polygon's vertex indices,
  each in the variable-width encoding, in reverse of the authored order; then, for every
  edge linked to no face, an entry of the \<open>u16\<close> value 2 and the edge's two vertex indices.
  (The counts and indices are those that fit their fields.)
\<close>

theorem generate_pols_layout:
  assumes "\<forall>p \<in> set (m_polygons mesh).
             length (p_vertices p) < 65536 \<and> (\<forall>v \<in> set (p_vertices p). v < 4294967296)"
    and "\<forall>e \<in> set (m_edges mesh). fst (e_verts e) < 4294967296 \<and> snd (e_verts e) < 4294967296"
  shows "generate_pols mesh subd = Inr (polygons_block mesh subd)"
proof -
  have polys: "for_each (\<lambda>(i, p) data.
               ebind (emit (pack_H (int (length (p_vertices p)))) data) (\<lambda>data.
               let numfaceverts = length (p_vertices p); p_vi = p_vertices p in
               for_each (\<lambda>j data. emit (generate_vx (int (p_vi ! j))) data)
                 (rev [0..<numfaceverts]) data))
             (enumerate 0 (m_polygons mesh)) d
        = Inr (d @ concat (map polygon_entry (m_polygons mesh)))" for d
  proof (rule for_each_enumerate_bytes)
    fix i :: nat and p :: polygon and d :: bytes
    assume "p \<in> set (m_polygons mesh)"
    with assms(1) have "length (p_vertices p) < 65536" "\<forall>v \<in> set (p_vertices p). v < 4294967296"
      by blast+
    from polygon_loop[OF this, of d]
    show "(case (i, p) of (i, p) \<Rightarrow> \<lambda>data.
               ebind (emit (pack_H (int (length (p_vertices p)))) data) (\<lambda>data.
               let numfaceverts = length (p_vertices p); p_vi = p_vertices p in
               for_each (\<lambda>j data. emit (generate_vx (int (p_vi ! j))) data)
                 (rev [0..<numfaceverts]) data)) d = Inr (d @ polygon_entry p)"
      by simp
  qed
  have edges: "for_each (\<lambda>e data.
         if length (e_link_faces e) = 0 then
           emits [pack_H 2, generate_vx (int (fst (e_verts e))),
                  generate_vx (int (snd (e_verts e)))] data
         else Inr data)
        (m_edges mesh) d
      = Inr (d @ concat (map (\<lambda>e. if e_link_faces e = [] then loose_edge_entry e else [])
                           (m_edges mesh)))" for d
  proof (rule for_each_bytes)
    fix e :: edge and d :: bytes
    assume "e \<in> set (m_edges mesh)"
    with assms(2) have "fst (e_verts e) < 4294967296" "snd (e_verts e) < 4294967296"
      by blast+
    then show "(if length (e_link_faces e) = 0 then
           emits [pack_H 2, generate_vx (int (fst (e_verts e))),
                  generate_vx (int (snd (e_verts e)))] d
         else Inr d) = Inr (d @ (if e_link_faces e = [] then loose_edge_entry e else []))"
      by (rule edge_loop)
  qed
  show ?thesis
    by (simp add: generate_pols_def polys[simplified] edges[simplified] concat_map_filter
        polygons_block_def)
qed

theorem generate_pols_layout_witness:
  "generate_pols
     (\<lparr>m_id = 0, m_vertices = [],
       m_polygons = [\<lparr>p_index = 0, p_vertices = [0, 1, 70000], p_loop_indices = [0, 1, 2],
                      p_material_index = 0\<rparr>],
       m_edges = [\<lparr>e_verts = (0, 1), e_link_faces = [0]\<rparr>,
                  \<lparr>e_verts = (3, 4), e_link_faces = []\<rparr>],
       m_materials = [], m_vertex_colors = [], m_uv_layers = []\<rparr> :: real mesh) False
   = Inr (bytes_lit ''FACE'' @ [0, 3, 0xFF, 1, 0x11, 0x70, 0, 1, 0, 0] @ [0, 2, 0, 3, 0, 4])"
  using generate_pols_layout
    [of "\<lparr>m_id = 0, m_vertices = [],
       m_polygons = [\<lparr>p_index = 0, p_vertices = [0, 1, 70000], p_loop_indices = [0, 1, 2],
                      p_material_index = 0\<rparr>],
       m_edges = [\<lparr>e_verts = (0, 1), e_link_faces = [0]\<rparr>,
                  \<lparr>e_verts = (3, 4), e_link_faces = []\<rparr>],
       m_materials = [], m_vertex_colors = [], m_uv_layers = []\<rparr> :: real mesh" False]
  by (simp add: polygons_block_def polygon_entry_def loose_edge_entry_def encodeVertexIndex_def
      be_bytes_2 be_bytes_4)


subsection \<open>Python sequences\<close>

lemma py_get_nat: "i < length xs \<Longrightarrow> py_get xs (int i) = Inr (xs ! i)"
  by (simp add: py_get_def)

lemma py_get_nat_out: "length xs \<le> i \<Longrightarrow> py_get xs (int i) = Inl IndexError"
  by (simp add: py_get_def)

lemma first_position_Cons:
  "first_position (y # ys) x = (if y = x then 0 else Suc (first_position ys x))"
  by (simp add: first_position_def)

lemma py_index_first: "x \<in> set xs \<Longrightarrow> py_index xs x = Inr (first_position xs x)"
  by (induction xs) (auto simp add: first_position_Cons)

lemma py_index_absent: "x \<notin> set xs \<Longrightarrow> py_index xs x = Inl ValueError"
  by (induction xs) auto

lemma first_position_less: "x \<in> set xs \<Longrightarrow> first_position xs x < length xs"
  by (induction xs) (auto simp add: first_position_Cons)

lemma first_position_nth: "x \<in> set xs \<Longrightarrow> xs ! first_position xs x = x"
  by (induction xs) (auto simp add: first_position_Cons)

lemma first_position_least: "j < first_position xs x \<Longrightarrow> xs ! j \<noteq> x"
proof (induction xs arbitrary: j)
  case Nil
  then show ?case by (simp add: first_position_def)
next
  case (Cons y ys)
  then show ?case
    by (cases j) (auto simp add: first_position_Cons split: if_splits)
qed

subsection \<open>The Tag Table\<close>

lemma material_slots_loop:
  "for_each (\<lambda>material (matmeshes, matnames).
             case material of
               Some mat \<Rightarrow> Inr (matmeshes @ [mesh], matnames @ [mat_name mat])
             | None \<Rightarrow> Inr (matmeshes, matnames)) mats (mm, mn)
   = Inr (mm @ replicate (length (material_slot_names mats)) mesh, mn @ material_slot_names mats)"
proof (induction mats arbitrary: mm mn)
  case Nil
  then show ?case by (simp add: material_slot_names_def)
next
  case (Cons m mats)
  show ?case
  proof (cases m)
    case None
    then show ?thesis using Cons[of mm mn] by (simp add: material_slot_names_def)
  next
    case (Some mat)
    then show ?thesis
      using Cons[of "mm @ [mesh]" "mn @ [mat_name mat]"]
      by (simp add: material_slot_names_def replicate_append_same)
  qed
qed


lemma used_names_step:
  assumes "(if m_materials mesh \<noteq> [] then
          for_each (\<lambda>material (matmeshes, matnames).
             case material of
               Some mat \<Rightarrow> Inr (matmeshes @ [mesh], matnames @ [mat_name mat])
             | None \<Rightarrow> Inr (matmeshes, matnames))
            (m_materials mesh) (mm, mn)
        else if m_vertex_colors mesh \<noteq> [] then
          ebind (self_getattr self ''LWO_VCOLOR_MATERIAL'') (\<lambda>name.
            Inr (mm @ [mesh], mn @ [name]))
        else
          ebind (self_getattr self ''LWO_DEFAULT_MATERIAL'') (\<lambda>name.
            Inr (mm @ [mesh], mn @ [name]))) = Inr (mm', mn')"
  shows "set mn \<subseteq> set mn'"
    and "m_materials mesh \<noteq> [] \<Longrightarrow> set (material_slot_names (m_materials mesh)) \<subseteq> set mn'"
  using assms
  by (auto simp add: material_slots_loop ebind_eq_Inr split: if_splits)

lemma used_names_loop:
  assumes "for_each (\<lambda>mesh (matmeshes, matnames).
        if m_materials mesh \<noteq> [] then
          for_each (\<lambda>material (matmeshes, matnames).
             case material of
               Some mat \<Rightarrow> Inr (matmeshes @ [mesh], matnames @ [mat_name mat])
             | None \<Rightarrow> Inr (matmeshes, matnames))
            (m_materials mesh) (matmeshes, matnames)
        else if m_vertex_colors mesh \<noteq> [] then
          ebind (self_getattr self ''LWO_VCOLOR_MATERIAL'') (\<lambda>name.
            Inr (matmeshes @ [mesh], matnames @ [name]))
        else
          ebind (self_getattr self ''LWO_DEFAULT_MATERIAL'') (\<lambda>name.
            Inr (matmeshes @ [mesh], matnames @ [name])))
      meshes (mm, mn) = Inr (mm', mn')"
  shows "set mn \<subseteq> set mn' \<and>
         (\<forall>mesh \<in> set meshes. m_materials mesh \<noteq> [] \<longrightarrow>
            set (material_slot_names (m_materials mesh)) \<subseteq> set mn')"
  using assms
proof (induction meshes arbitrary: mm mn)
  case Nil
  then show ?case by simp
next
  case (Cons mesh meshes)
  from Cons.prems obtain mm1 mn1 where
    step: "(if m_materials mesh \<noteq> [] then
          for_each (\<lambda>material (matmeshes, matnames).
             case material of
               Some mat \<Rightarrow> Inr (matmeshes @ [mesh], matnames @ [mat_name mat])
             | None \<Rightarrow> Inr (matmeshes, matnames))
            (m_materials mesh) (mm, mn)
        else if m_vertex_colors mesh \<noteq> [] then
          ebind (self_getattr self ''LWO_VCOLOR_MATERIAL'') (\<lambda>name.
            Inr (mm @ [mesh], mn @ [name]))
        else
          ebind (self_getattr self ''LWO_DEFAULT_MATERIAL'') (\<lambda>name.
            Inr (mm @ [mesh], mn @ [name]))) = Inr (mm1, mn1)"
    and rest: "for_each (\<lambda>mesh (matmeshes, matnames).
        if m_materials mesh \<noteq> [] then
          for_each (\<lambda>material (matmeshes, matnames).
             case material of
               Some mat \<Rightarrow> Inr (matmeshes @ [mesh], matnames @ [mat_name mat])
             | None \<Rightarrow> Inr (matmeshes, matnames))
            (m_materials mesh) (matmeshes, matnames)
        else if m_vertex_colors mesh \<noteq> [] then
          ebind (self_getattr self ''LWO_VCOLOR_MATERIAL'') (\<lambda>name.
            Inr (matmeshes @ [mesh], matnames @ [name]))
        else
          ebind (self_getattr self ''LWO_DEFAULT_MATERIAL'') (\<lambda>name.
            Inr (matmeshes @ [mesh], matnames @ [name])))
      meshes (mm1, mn1) = Inr (mm', mn')"
    by (auto simp add: ebind_eq_Inr)
  from Cons.IH[OF rest] used_names_step[OF step] show ?case
    by auto
qed

lemma used_material_names_cover:
  assumes "get_used_material_names self meshes = Inr (matmeshes, material_names)"
    and "mesh \<in> set meshes" and "m_materials mesh \<noteq> []"
  shows "set (material_slot_names (m_materials mesh)) \<subseteq> set material_names"
  using used_names_loop[OF assms(1)[unfolded get_used_material_names_def]] assms(2,3)
  by blast

lemma slot_name_member:
  assumes "i < length mats" "mats ! i = Some mat"
  shows "mat_name mat \<in> set (material_slot_names mats)"
proof -
  have "Some mat \<in> set mats" using assms by (metis nth_mem)
  then show ?thesis by (force simp add: material_slot_names_def)
qed


subsection \<open>The PolygonTagMap block\<close>

lemma ptag_entry_materials:
  assumes mats: "m_materials mesh \<noteq> []"
    and idx: "p_index poly < 4294967296"
    and slot: "p_material_index poly < length (m_materials mesh)"
      "m_materials mesh ! p_material_index poly \<noteq> None"
    and mem: "resolved_material_name mesh poly \<in> set material_names"
    and len: "length material_names \<le> 65536"
  shows "(let matindex = p_material_index poly in
           ebind (py_get (m_materials mesh) (int matindex)) (\<lambda>mat.
           ebind (case mat of None \<Rightarrow> Inl AttributeError | Some m \<Rightarrow> Inr (mat_name m)) (\<lambda>matname.
           ebind (py_index material_names matname) (\<lambda>surfindex.
           emits [generate_vx (int (p_index poly)), pack_H (int surfindex)] data))))
         = Inr (data @ encodeVertexIndex (p_index poly)
                     @ be_bytes 2 (surface_index mesh material_names poly))"
proof -
  from slot(2) obtain mat where mat: "m_materials mesh ! p_material_index poly = Some mat"
    by auto
  then have name: "resolved_material_name mesh poly = mat_name mat"
    by (simp add: resolved_material_name_def)
  have "first_position material_names (mat_name mat) < length material_names"
    using mem name by (simp add: first_position_less)
  with len have "first_position material_names (mat_name mat) < 65536" by simp
  then show ?thesis
    using mats idx slot(1) mat mem name
    by (simp add: py_get_nat py_index_first pack_H_nat generate_vx_encode surface_index_def)
qed

lemma ptag_entry_default:
  assumes "m_materials mesh = []" "p_index poly < 4294967296"
  shows "emits [generate_vx (int (p_index poly)), pack_H 0] data
         = Inr (data @ encodeVertexIndex (p_index poly)
                     @ be_bytes 2 (surface_index mesh material_names poly))"
  using assms pack_H_nat[of 0] by (simp add: generate_vx_encode surface_index_def)

text \<open>
  C3. For every polygon, in the order of \<open>mesh.polygons\<close> (the order of the Polygons block),
  the PTAG chunk holds the variable-width polygon index and a \<open>u16\<close> surface index. For a mesh
  with materials, exported with the Tag Table that \<open>get_used_material_names\<close> built for the
  run, the surface index is the (first) position of the polygon's resolved material name in
  that table; for a mesh without materials it is 0.
\<close>

theorem generate_ptag_surface_index:
  assumes idx: "\<forall>poly \<in> set (m_polygons mesh). p_index poly < 4294967296"
    and tags: "m_materials mesh \<noteq> [] \<Longrightarrow>
         get_used_material_names self meshes = Inr (matmeshes, material_names)
         \<and> mesh \<in> set meshes \<and> length material_names \<le> 65536
         \<and> (\<forall>poly \<in> set (m_polygons mesh).
               p_material_index poly < length (m_materials mesh)
               \<and> m_materials mesh ! p_material_index poly \<noteq> None)"
  shows "generate_ptag mesh material_names = Inr (polygon_tag_map mesh material_names)
     \<and> (\<forall>poly \<in> set (m_polygons mesh).
          if m_materials mesh = [] then surface_index mesh material_names poly = 0
          else surface_index mesh material_names poly < length material_names
             \<and> material_names ! surface_index mesh material_names poly
                 = resolved_material_name mesh poly
             \<and> (\<forall>j < surface_index mesh material_names poly.
                   material_names ! j \<noteq> resolved_material_name mesh poly))"
proof (cases "m_materials mesh = []")
  case True
  have "for_each (\<lambda>poly data.
        if m_materials mesh \<noteq> [] then
          (let matindex = p_material_index poly in
           ebind (py_get (m_materials mesh) (int matindex)) (\<lambda>mat.
           ebind (case mat of None \<Rightarrow> Inl AttributeError | Some m \<Rightarrow> Inr (mat_name m)) (\<lambda>matname.
           ebind (py_index material_names matname) (\<lambda>surfindex.
           emits [generate_vx (int (p_index poly)), pack_H (int surfindex)] data))))
        else
          emits [generate_vx (int (p_index poly)), pack_H 0] data)
      (m_polygons mesh) (bytes_lit ''SURF'')
    = Inr (bytes_lit ''SURF'' @ concat (map (\<lambda>poly. encodeVertexIndex (p_index poly)
                             @ be_bytes 2 (surface_index mesh material_names poly))
                 (m_polygons mesh)))"
  proof (rule for_each_bytes)
    fix poly :: polygon and d :: bytes
    assume "poly \<in> set (m_polygons mesh)"
    with idx have "p_index poly < 4294967296" by blast
    from ptag_entry_default[OF True this, of d material_names] True
    show "(if m_materials mesh \<noteq> [] then
          (let matindex = p_material_index poly in
           ebind (py_get (m_materials mesh) (int matindex)) (\<lambda>mat.
           ebind (case mat of None \<Rightarrow> Inl AttributeError | Some m \<Rightarrow> Inr (mat_name m)) (\<lambda>matname.
           ebind (py_index material_names matname) (\<lambda>surfindex.
           emits [generate_vx (int (p_index poly)), pack_H (int surfindex)] d))))
        else
          emits [generate_vx (int (p_index poly)), pack_H 0] d)
      = Inr (d @ encodeVertexIndex (p_index poly)
                @ be_bytes 2 (surface_index mesh material_names poly))"
      by simp
  qed
  then have "generate_ptag mesh material_names = Inr (polygon_tag_map mesh material_names)"
    by (simp only: generate_ptag_def polygon_tag_map_def)
  with True show ?thesis by (simp add: surface_index_def)
next
  case False
  from tags[OF False] have used: "get_used_material_names self meshes = Inr (matmeshes, material_names)"
    and mesh: "mesh \<in> set meshes" and len: "length material_names \<le> 65536"
    and slots: "\<forall>poly \<in> set (m_polygons mesh).
               p_material_index poly < length (m_materials mesh)
               \<and> m_materials mesh ! p_material_index poly \<noteq> None"
    by simp_all
  have mem: "resolved_material_name mesh poly \<in> set material_names"
    if "poly \<in> set (m_polygons mesh)" for poly
  proof -
    from slots that obtain mat where i: "p_material_index poly < length (m_materials mesh)"
      and mat: "m_materials mesh ! p_material_index poly = Some mat"
      by auto
    from slot_name_member[OF i mat] used_material_names_cover[OF used mesh False]
    have "mat_name mat \<in> set material_names" by blast
    with mat show ?thesis by (simp add: resolved_material_name_def)
  qed
  have "for_each (\<lambda>poly data.
        if m_materials mesh \<noteq> [] then
          (let matindex = p_material_index poly in
           ebind (py_get (m_materials mesh) (int matindex)) (\<lambda>mat.
           ebind (case mat of None \<Rightarrow> Inl AttributeError | Some m \<Rightarrow> Inr (mat_name m)) (\<lambda>matname.
           ebind (py_index material_names matname) (\<lambda>surfindex.
           emits [generate_vx (int (p_index poly)), pack_H (int surfindex)] data))))
        else
          emits [generate_vx (int (p_index poly)), pack_H 0] data)
      (m_polygons mesh) (bytes_lit ''SURF'')
    = Inr (bytes_lit ''SURF'' @ concat (map (\<lambda>poly. encodeVertexIndex (p_index poly)
                             @ be_bytes 2 (surface_index mesh material_names poly))
                 (m_polygons mesh)))"
  proof (rule for_each_bytes)
    fix poly :: polygon and d :: bytes
    assume p: "poly \<in> set (m_polygons mesh)"
    with idx have i: "p_index poly < 4294967296" by blast
    from slots p have s: "p_material_index poly < length (m_materials mesh)"
      "m_materials mesh ! p_material_index poly \<noteq> None" by blast+
    from ptag_entry_materials[OF False i s mem[OF p] len, of d] False
    show "(if m_materials mesh \<noteq> [] then
          (let matindex = p_material_index poly in
           ebind (py_get (m_materials mesh) (int matindex)) (\<lambda>mat.
           ebind (case mat of None \<Rightarrow> Inl AttributeError | Some m \<Rightarrow> Inr (mat_name m)) (\<lambda>matname.
           ebind (py_index material_names matname) (\<lambda>surfindex.
           emits [generate_vx (int (p_index poly)), pack_H (int surfindex)] d))))
        else
          emits [generate_vx (int (p_index poly)), pack_H 0] d)
      = Inr (d @ encodeVertexIndex (p_index poly)
                @ be_bytes 2 (surface_index mesh material_names poly))"
      by simp
  qed
  then have "generate_ptag mesh material_names = Inr (polygon_tag_map mesh material_names)"
    by (simp only: generate_ptag_def polygon_tag_map_def)
  moreover have "surface_index mesh material_names poly < length material_names
             \<and> material_names ! surface_index mesh material_names poly
                 = resolved_material_name mesh poly
             \<and> (\<forall>j < surface_index mesh material_names poly.
                   material_names ! j \<noteq> resolved_material_name mesh poly)"
    if "poly \<in> set (m_polygons mesh)" for poly
    using mem[OF that] False
    by (simp add: surface_index_def first_position_less first_position_nth first_position_least)
  ultimately show ?thesis using False by simp
qed

theorem generate_ptag_surface_index_witness:
  "generate_ptag example_two [''Red'', ''Blue'', ''Red'']
     = Inr (bytes_lit ''SURF'' @ [0, 0, 0, 1] @ [0, 1, 0, 0])
   \<and> generate_ptag example_triangle [] = Inr (bytes_lit ''SURF'' @ [0, 0, 0, 0])"
proof -
  have used: "get_used_material_names (LwoExport False False (1::real) ''out.lwo'')
                [example_red, example_two]
              = Inr ([example_red, example_two, example_two], [''Red'', ''Blue'', ''Red''])"
    by (simp add: get_used_material_names_def example_red_def example_two_def
        example_triangle_def)
  have a: "generate_ptag example_two [''Red'', ''Blue'', ''Red'']
           = Inr (polygon_tag_map example_two [''Red'', ''Blue'', ''Red''])"
    using generate_ptag_surface_index[where mesh = example_two
        and self = "LwoExport False False (1::real) ''out.lwo''"
        and meshes = "[example_red, example_two]"
        and matmeshes = "[example_red, example_two, example_two]"
        and material_names = "[''Red'', ''Blue'', ''Red'']"] used
    by (simp add: example_two_def)
  have b: "generate_ptag example_triangle []
           = Inr (polygon_tag_map example_triangle [])"
    using generate_ptag_surface_index[where mesh = example_triangle
        and material_names = "[]"]
    by (simp add: example_triangle_def)
  show ?thesis
    unfolding a b
    by (simp add: polygon_tag_map_def surface_index_def resolved_material_name_def
        first_position_def encodeVertexIndex_def be_bytes_2 example_two_def
        example_triangle_def)
qed


subsection \<open>The UV discontinuity blocks\<close>


















subsection \<open>The bounding box\<close>

lemma py_min_Min: "xs \<noteq> [] \<Longrightarrow> py_min xs = Inr (Min (set xs))"
proof (cases xs)
  case Nil
  then show "xs \<noteq> [] \<Longrightarrow> ?thesis" by simp
next
  case (Cons x ys)
  have "(\<lambda>m y. if y < m then y else m) = (\<lambda>m y :: 'a. min y m)"
    by (intro ext) (auto simp add: min_def)
  then have "foldl (\<lambda>m y. if y < m then y else m) x ys = fold min ys x"
    by (simp add: foldl_conv_fold)
  then show ?thesis using Cons Min.set_eq_fold[of x ys] by simp
qed

lemma py_max_Max: "xs \<noteq> [] \<Longrightarrow> py_max xs = Inr (Max (set xs))"
proof (cases xs)
  case Nil
  then show "xs \<noteq> [] \<Longrightarrow> ?thesis" by simp
next
  case (Cons x ys)
  have "(\<lambda>m y. if m < y then y else m) = (\<lambda>m y :: 'a. max y m)"
    by (intro ext) (auto simp add: max_def)
  then have "foldl (\<lambda>m y. if m < y then y else m) x ys = fold max ys x"
    by (simp add: foldl_conv_fold)
  then show ?thesis using Cons Max.set_eq_fold[of x ys] by simp
qed

lemma scaled_axis_nonempty: "scaled_axis H self mesh axis \<noteq> []"
  by (simp add: scaled_axis_def)

lemma generate_bbox_values:
  "generate_bbox H self mesh = emit (pack_floats H (bounding_box_values H self mesh)) []"
proof -
  have "generate_bbox H self mesh =
     (let xx = scaled_axis H self mesh fst;
          yy = scaled_axis H self mesh (\<lambda>co. fst (snd co));
          zz = scaled_axis H self mesh (\<lambda>co. snd (snd co))
      in ebind (py_min xx) (\<lambda>min_xx. ebind (py_min zz) (\<lambda>min_zz. ebind (py_min yy) (\<lambda>min_yy.
         ebind (py_max xx) (\<lambda>max_xx. ebind (py_max zz) (\<lambda>max_zz. ebind (py_max yy) (\<lambda>max_yy.
           emit (pack_floats H [min_xx, min_zz, min_yy, max_xx, max_zz, max_yy]) [])))))))"
    by (simp add: generate_bbox_def scaled_axis_def Let_def)
  then show ?thesis
    by (simp add: Let_def bounding_box_values_def py_min_Min py_max_Max scaled_axis_nonempty)
qed

text \<open>
  C9. The bounding-box block is the packing of exactly six floats: the minima, then the
  maxima, of the scaled vertex coordinates in the order minX, minZ, minY, maxX, maxZ, maxY.
  For a mesh with no vertices all six are 0: \<open>min\<close> and \<open>max\<close> never see an empty
  sequence, so the block is produced whenever the six values pack. (Floats are an ordered
  type with a multiplication; their binary32 layout is the host's \<open>pack_f\<close>.)
\<close>

theorem generate_bbox_six_values:
  "generate_bbox H self mesh = emit (pack_floats H (bounding_box_values H self mesh)) []
   \<and> length (bounding_box_values H self mesh) = 6
   \<and> (m_vertices mesh = [] \<longrightarrow> bounding_box_values H self mesh = replicate 6 (flit H 0.0))
   \<and> ((\<forall>x \<in> set (bounding_box_values H self mesh). pack_f H x = Inr (pk x)) \<longrightarrow>
        generate_bbox H self mesh = Inr (concat (map pk (bounding_box_values H self mesh))))"
proof (intro conjI impI)
  show "generate_bbox H self mesh = emit (pack_floats H (bounding_box_values H self mesh)) []"
    by (rule generate_bbox_values)
  show "length (bounding_box_values H self mesh) = 6"
    by (simp add: bounding_box_values_def Let_def)
  show "bounding_box_values H self mesh = replicate 6 (flit H 0.0)" if "m_vertices mesh = []"
    using that by (simp add: bounding_box_values_def scaled_axis_def numeral_eq_Suc)
  show "generate_bbox H self mesh = Inr (concat (map pk (bounding_box_values H self mesh)))"
    if a: "\<forall>x \<in> set (bounding_box_values H self mesh). pack_f H x = Inr (pk x)"
  proof -
    have "emits (map (pack_f H) vs) d = Inr (d @ concat (map pk vs))"
      if "\<forall>x \<in> set vs. pack_f H x = Inr (pk x)" for vs d
      using that by (induction vs arbitrary: d) simp_all
    from this[OF a, of "[]"] show ?thesis
      by (simp add: generate_bbox_values pack_floats_def)
  qed
qed

theorem generate_bbox_six_values_witness:
  "generate_bbox example_host (LwoExport False False 2 ''out.lwo'') example_triangle
     = Inr ([0, 0, 0, 0] @ [0, 0, 0, 0] @ [0, 0, 0, 0] @ [0, 0, 0, 2] @ [0, 0, 0, 0] @ [0, 0, 0, 2])
   \<and> generate_bbox example_host (LwoExport False False 2 ''out.lwo'')
       (example_triangle\<lparr>m_vertices := []\<rparr>)
     = Inr ([0, 0, 0, 0] @ [0, 0, 0, 0] @ [0, 0, 0, 0] @ [0, 0, 0, 0] @ [0, 0, 0, 0] @ [0, 0, 0, 0])"
proof -
  have v: "bounding_box_values example_host (LwoExport False False 2 ''out.lwo'') example_triangle
           = [0, 0, 0, 2, 0, 2]"
    by (simp add: bounding_box_values_def scaled_axis_def example_triangle_def LwoExport_def)
  have w: "bounding_box_values example_host (LwoExport False False 2 ''out.lwo'')
             (example_triangle\<lparr>m_vertices := []\<rparr>) = [0, 0, 0, 0, 0, 0]"
    by (simp add: bounding_box_values_def scaled_axis_def example_host_def)
  have pk: "pack_f example_host x = Inr (be_bytes 4 (nat \<lfloor>x\<rfloor>))" for x
    by (simp add: example_host_def)
  have z: "be_bytes 4 0 = [0, 0, 0, 0]" "be_bytes 4 2 = [0, 0, 0, 2]"
    by (simp_all add: be_bytes_4)
  have h: "\<forall>x \<in> set (bounding_box_values example_host (LwoExport False False 2 ''out.lwo'') m).
             pack_f example_host x = Inr (be_bytes 4 (nat \<lfloor>x\<rfloor>))" for m
    by (simp add: pk)
  have a: "generate_bbox example_host (LwoExport False False 2 ''out.lwo'') example_triangle
     = Inr (concat (map (\<lambda>x. be_bytes 4 (nat \<lfloor>x\<rfloor>)) [0, 0, 0, 2, 0, 2 :: real]))"
    using generate_bbox_six_values[of example_host "LwoExport False False 2 ''out.lwo''"
        example_triangle "\<lambda>x. be_bytes 4 (nat \<lfloor>x\<rfloor>)",
        THEN conjunct2, THEN conjunct2, THEN conjunct2, THEN mp, OF h]
    by (simp only: v)
  have b: "generate_bbox example_host (LwoExport False False 2 ''out.lwo'')
       (example_triangle\<lparr>m_vertices := []\<rparr>)
     = Inr (concat (map (\<lambda>x. be_bytes 4 (nat \<lfloor>x\<rfloor>)) [0, 0, 0, 0, 0, 0 :: real]))"
    using generate_bbox_six_values[of example_host "LwoExport False False 2 ''out.lwo''"
        "example_triangle\<lparr>m_vertices := []\<rparr>" "\<lambda>x. be_bytes 4 (nat \<lfloor>x\<rfloor>)",
        THEN conjunct2, THEN conjunct2, THEN conjunct2, THEN mp, OF h]
    by (simp only: w)
  show ?thesis
    unfolding a b by (simp add: z)
qed


subsection \<open>File names\<close>

lemma endswith_append: "endswith (s @ t) t"
  by (simp add: endswith_def)

lemma lower_lwo: "lower ''.lwo'' = ''.lwo''"
  by (simp add: lower_def lower_char_def)

lemma endswith_lower_ext: "endswith (lower (f @ ''.lwo'')) ''.lwo''"
proof -
  have "lower (f @ ''.lwo'') = lower f @ ''.lwo''"
    using lower_lwo by (simp add: lower_def)
  then show ?thesis by (simp only: endswith_append)
qed

lemma export_file_filename:
  assumes "export_file H self objdups meshes filename obj = Inr (fn, outfile)"
  shows "fn = output_filename H self filename obj"
  using assms
  by (auto simp add: export_file_def Let_def ebind_eq_Inr)

text \<open>
  C8 (as amended). In batch mode the name of the file written for an object is the directory
  of the current file name, the path separator, and the source object's name with every
  period replaced by an underscore and every other character (spaces included) kept, with
  \<open>.lwo\<close> appended when the name so built does not already end in it, whatever the case.
\<close>

theorem batch_filename_periods_only:
  assumes "option_batch self"
    and "export_file H self objdups meshes filename obj = Inr (fn, outfile)"
  shows "\<exists>ext. fn = os_path_dirname H filename @ os_sep H
                    @ map (\<lambda>c. if c = CHR ''.'' then CHR ''_'' else c) (o_name obj) @ ext
              \<and> (ext = [] \<or> ext = ''.lwo'')
              \<and> endswith (lower fn) ''.lwo''"
proof -
  let ?f = "os_path_dirname H filename @ os_sep H
            @ map (\<lambda>c. if c = CHR ''.'' then CHR ''_'' else c) (o_name obj)"
  have fn: "fn = (if \<not> endswith (lower ?f) ''.lwo'' then ?f @ ''.lwo'' else ?f)"
    using export_file_filename[OF assms(2)] assms(1)
    by (simp add: output_filename_def replace_char_def Let_def)
  show ?thesis
  proof (cases "endswith (lower ?f) ''.lwo''")
    case True
    with fn have "fn = ?f @ []" by simp
    with True show ?thesis by auto
  next
    case False
    with fn have e: "fn = ?f @ ''.lwo''" by simp
    then have "endswith (lower fn) ''.lwo''" by (simp only: endswith_lower_ext)
    with e show ?thesis by auto
  qed
qed

theorem batch_filename_periods_only_witness:
  "(\<exists>outfile. export_file example_host
     (execute_self (LwoExport False True 1 ''/tmp/out.lwo''))
     [\<lparr>o_name = ''My Cube.001'', o_data = example_red\<rparr>] [example_red] ''/tmp/out.lwo''
     \<lparr>o_name = ''My Cube.001'', o_data = example_red\<rparr>
   = Inr (''/tmp/My Cube_001.lwo'', outfile))
   \<and> (\<exists>ext. ''/tmp/My Cube_001.lwo'' = ''/tmp'' @ ''/'' @ ''My Cube_001'' @ ext
          \<and> (ext = [] \<or> ext = ''.lwo''))"
proof -
  let ?self = "execute_self (LwoExport False True (1::real) ''/tmp/out.lwo'')"
  let ?obj = "\<lparr>o_name = ''My Cube.001'', o_data = example_red\<rparr>"
  let ?r = "export_file example_host ?self [?obj] [example_red] ''/tmp/out.lwo'' ?obj"
  have ok: "isl ?r = False" by code_simp
  have name: "fst (projr ?r) = ''/tmp/My Cube_001.lwo''" by code_simp
  obtain outfile where r: "?r = Inr (''/tmp/My Cube_001.lwo'', outfile)"
    using ok name by (cases ?r) auto
  have b: "option_batch ?self" by (simp add: LwoExport_def execute_self_def)
  from batch_filename_periods_only[OF b r]
  have "\<exists>ext. ''/tmp/My Cube_001.lwo'' = ''/tmp'' @ ''/'' @ ''My Cube_001'' @ ext
          \<and> (ext = [] \<or> ext = ''.lwo'')"
    by (simp add: example_host_def posix_dirname_def)
  with r show ?thesis by blast
qed

text \<open>C8 as stated fails for an object named \<open>My Cube.001\<close>: the period is replaced, the
  space is not.\<close>

theorem batch_filename_space_counterexample:
  "map_sum id (map fst)
     (execute example_host (LwoExport False True 1 ''/tmp/out.lwo'')
        [\<lparr>o_name = ''My Cube.001'', o_data = example_red\<rparr>])
   = Inr [''/tmp/My Cube_001.lwo'']
   \<and> CHR '' '' \<in> set ''/tmp/My Cube_001.lwo''"
  by code_simp


subsection \<open>Meshes without materials\<close>

lemma operator_has_no_default_material:
  "self_getattr (execute_self (LwoExport subd batch scale path)) ''LWO_DEFAULT_MATERIAL''
     = Inl AttributeError"
  "self_getattr (execute_self (LwoExport subd batch scale path)) ''LWO_VCOLOR_MATERIAL''
     = Inl AttributeError"
  by (simp_all add: self_getattr_def execute_self_def LwoExport_def LwoExport_class_attrs_def)

lemma used_names_fail:
  assumes "\<exists>mesh \<in> set meshes. m_materials mesh = []"
  shows "for_each (\<lambda>mesh (matmeshes, matnames).
        if m_materials mesh \<noteq> [] then
          for_each (\<lambda>material (matmeshes, matnames).
             case material of
               Some mat \<Rightarrow> Inr (matmeshes @ [mesh], matnames @ [mat_name mat])
             | None \<Rightarrow> Inr (matmeshes, matnames))
            (m_materials mesh) (matmeshes, matnames)
        else if m_vertex_colors mesh \<noteq> [] then
          ebind (self_getattr (execute_self (LwoExport subd batch scale path)) ''LWO_VCOLOR_MATERIAL'') (\<lambda>name.
            Inr (matmeshes @ [mesh], matnames @ [name]))
        else
          ebind (self_getattr (execute_self (LwoExport subd batch scale path)) ''LWO_DEFAULT_MATERIAL'') (\<lambda>name.
            Inr (matmeshes @ [mesh], matnames @ [name])))
      meshes (mm, mn) = Inl AttributeError"
  using assms
proof (induction meshes arbitrary: mm mn)
  case Nil
  then show ?case by simp
next
  case (Cons mesh meshes)
  show ?case
  proof (cases "m_materials mesh = []")
    case True
    then show ?thesis by (simp add: operator_has_no_default_material)
  next
    case False
    with Cons.prems have "\<exists>mesh \<in> set meshes. m_materials mesh = []" by auto
    from Cons.IH[OF this] False show ?thesis
      by (simp add: material_slots_loop)
  qed
qed

lemma no_materials_no_export:
  assumes "\<exists>mesh \<in> set meshes. m_materials mesh = []"
  shows "export_file H (execute_self (LwoExport subd batch scale path)) objdups meshes filename obj
         = Inl AttributeError"
  by (simp add: export_file_def get_used_material_names_def used_names_fail[OF assms])

text \<open>
  C1 fails on the code. Exporting the single triangle without materials and without vertex
  colours raises \<open>AttributeError\<close>: \<open>get_used_material_names\<close> reads
  \<open>self.LWO_DEFAULT_MATERIAL\<close>, which nothing defines. Had the attribute been \<open>DEFAULT_NAME\<close>,
  the export would raise \<open>TypeError\<close> instead: \<open>generate_surface\<close> calls
  \<open>generate_default_surf()\<close> without its argument.
\<close>

theorem default_material_export_fails:
  "execute example_host (LwoExport False False 1 ''/tmp/out.lwo'')
     [\<lparr>o_name = ''Triangle'', o_data = example_triangle\<rparr>] = Inl AttributeError
   \<and> get_used_material_names (execute_self (LwoExport False False (1::real) ''/tmp/out.lwo''))
       [example_triangle] = Inl AttributeError
   \<and> export_file example_host
       ((execute_self (LwoExport False False 1 ''/tmp/out.lwo''))
          \<lparr>attrs := (attrs (execute_self (LwoExport False False (1::real) ''/tmp/out.lwo'')))
                       (''LWO_DEFAULT_MATERIAL'' \<mapsto> DEFAULT_NAME)\<rparr>)
       [\<lparr>o_name = ''Triangle'', o_data = example_triangle\<rparr>] [example_triangle]
       ''/tmp/out.lwo'' \<lparr>o_name = ''Triangle'', o_data = example_triangle\<rparr> = Inl TypeError"
  by code_simp


subsection \<open>Chunks and the container\<close>

lemma pack_L_nat: "n < 4294967296 \<Longrightarrow> pack_L (int n) = Inr (be_bytes 4 n)"
  by (simp add: pack_L_def)

lemma pack_L_eq_Inr: "pack_L (int n) = Inr b \<longleftrightarrow> n < 4294967296 \<and> b = be_bytes 4 n"
  by (auto simp add: pack_L_def)

lemma write_chunk_eq_Inr:
  "write_chunk dest name data = Inr out \<longleftrightarrow>
     (\<exists>b. data = PyBytes b \<and> length b < 4294967296 \<and> out = dest @ chunk_bytes (name, b))"
  by (cases data) (auto simp add: write_chunk_def ebind_eq_Inr pack_L_eq_Inr chunk_bytes_def)

lemma length_chunk_bytes: "length (chunk_bytes (tag, c)) = length (utf8 tag) + 4 + length c"
  by (simp add: chunk_bytes_def length_be_bytes)

lemma parse_chunks_Nil [simp]: "parse_chunks [] = Some []"
  by (simp add: parse_chunks.simps)

lemma parse_chunks_step:
  assumes "bs \<noteq> []" "\<not> length bs < 8" "take 4 bs = t"
    and "be_decode (take 4 (drop 4 bs)) = length c" "drop 8 bs = c @ rest"
  shows "parse_chunks bs = map_option (\<lambda>cs. (t, c) # cs) (parse_chunks rest)"
  using assms by (subst parse_chunks.simps) (simp add: Let_def)

lemma parse_chunks_chunk:
  assumes "length (utf8 tag) = 4" "length c < 4294967296"
  shows "parse_chunks (chunk_bytes (tag, c) @ rest)
         = map_option (\<lambda>cs. (utf8 tag, c) # cs) (parse_chunks rest)"
proof (rule parse_chunks_step)
  let ?bs = "chunk_bytes (tag, c) @ rest"
  show "?bs \<noteq> []" using assms(1) by (auto simp add: chunk_bytes_def)
  show "\<not> length ?bs < 8" using assms(1) by (simp add: length_chunk_bytes)
  show "take 4 ?bs = utf8 tag" using assms(1) by (simp add: chunk_bytes_def)
  have "take 4 (drop 4 ?bs) = be_bytes 4 (length c)"
    using assms(1) by (simp add: chunk_bytes_def length_be_bytes)
  moreover have "length c < 256 ^ 4" using assms(2) by simp
  ultimately show "be_decode (take 4 (drop 4 ?bs)) = length c"
    by (simp add: be_decode_be_bytes)
  show "drop 8 ?bs = c @ rest"
    using assms(1) by (simp add: chunk_bytes_def length_be_bytes)
qed

lemma parse_chunks_stream:
  assumes "\<forall>(tag, c) \<in> set cs. length (utf8 tag) = 4 \<and> length c < 4294967296"
  shows "parse_chunks (concat (map chunk_bytes cs)) = Some (map (\<lambda>(tag, c). (utf8 tag, c)) cs)"
  using assms
proof (induction cs)
  case Nil
  then show ?case by simp
next
  case (Cons x cs)
  obtain tag c where x: "x = (tag, c)" by (cases x)
  with Cons.prems have "length (utf8 tag) = 4" "length c < 4294967296" by simp_all
  from parse_chunks_chunk[OF this] Cons x show ?case
    by simp
qed


lemma ebindE:
  assumes "ebind m f = Inr y"
  obtains x where "m = Inr x" "f x = Inr y"
  using assms by (auto simp add: ebind_eq_Inr)

lemma write_chunks_eq_Inr:
  assumes "write_chunks named (md, ch) = Inr (md', ch')"
  shows "md' = md @ concat (map chunk_bytes named)
         \<and> ch' = ch @ map (\<lambda>(t, c). PyBytes c) named
         \<and> (\<forall>(t, c) \<in> set named. length c < 4294967296)"
  using assms
proof (induction named arbitrary: md ch)
  case Nil
  then show ?case by (simp add: write_chunks_def)
next
  case (Cons x named)
  obtain t c where x: "x = (t, c)" by (cases x)
  from Cons.prems x obtain md1 where
    w: "write_chunk md t (PyBytes c) = Inr md1"
    and r: "write_chunks named (md1, ch @ [PyBytes c]) = Inr (md', ch')"
    by (auto simp add: write_chunks_def ebind_eq_Inr)
  from w have "length c < 4294967296" "md1 = md @ chunk_bytes (t, c)"
    by (simp_all add: write_chunk_eq_Inr)
  with Cons.IH[OF r] x show ?case by simp
qed

lemma grows_refl: "grows s s"
proof -
  have "fst s = fst s @ concat (map chunk_bytes [])
        \<and> snd s = snd s @ map (\<lambda>(t, c). PyBytes c) []
        \<and> (\<forall>(t, c) \<in> set []. t \<in> layer_tags \<and> length c < 4294967296)"
    by simp
  then show ?thesis unfolding grows_def by (rule exI)
qed

lemma grows_trans:
  assumes "grows s1 s2" "grows s2 s3"
  shows "grows s1 s3"
proof -
  from assms(1) obtain n1 where n1: "fst s2 = fst s1 @ concat (map chunk_bytes n1)"
    "snd s2 = snd s1 @ map (\<lambda>(t, c). PyBytes c) n1"
    "\<forall>(t, c) \<in> set n1. t \<in> layer_tags \<and> length c < 4294967296"
    unfolding grows_def by blast
  from assms(2) obtain n2 where n2: "fst s3 = fst s2 @ concat (map chunk_bytes n2)"
    "snd s3 = snd s2 @ map (\<lambda>(t, c). PyBytes c) n2"
    "\<forall>(t, c) \<in> set n2. t \<in> layer_tags \<and> length c < 4294967296"
    unfolding grows_def by blast
  have "fst s3 = fst s1 @ concat (map chunk_bytes (n1 @ n2))
        \<and> snd s3 = snd s1 @ map (\<lambda>(t, c). PyBytes c) (n1 @ n2)
        \<and> (\<forall>(t, c) \<in> set (n1 @ n2). t \<in> layer_tags \<and> length c < 4294967296)"
    using n1 n2 by auto
  then show ?thesis unfolding grows_def by (rule exI)
qed

lemma write_chunks_grows:
  assumes "write_chunks named s = Inr s'" "fst ` set named \<subseteq> layer_tags"
  shows "grows s s'"
proof -
  obtain md ch md' ch' where s: "s = (md, ch)" "s' = (md', ch')"
    by (cases s, cases s') auto
  from write_chunks_eq_Inr[OF assms(1)[unfolded s]] assms(2)
  have "fst s' = fst s @ concat (map chunk_bytes named)
        \<and> snd s' = snd s @ map (\<lambda>(t, c). PyBytes c) named
        \<and> (\<forall>(t, c) \<in> set named. t \<in> layer_tags \<and> length c < 4294967296)"
    unfolding s by force
  then show ?thesis unfolding grows_def by (rule exI)
qed

lemma write_layer_grows:
  assumes "write_layer H mesh layr pnts bbox pols ptag vmad_uvs s = Inr s'"
  shows "grows s s'"
proof -
  from assms[unfolded write_layer_def] obtain s1 s2 s3 where
    a: "write_chunks [(''LAYR'', layr), (''PNTS'', pnts), (''BBOX'', bbox)] s = Inr s1"
    and b: "(if m_vertex_colors mesh \<noteq> [] then
              ebind (generate_vertex_colors H mesh) (\<lambda>vcs.
                write_chunks (map (\<lambda>vmad. (''VMAD'', vmad)) vcs) s1)
            else Inr s1) = Inr s2"
    and c: "write_chunks [(''POLS'', pols), (''PTAG'', ptag)] s2 = Inr s3"
    and d: "(if m_uv_layers mesh \<noteq> [] then
       write_chunks (map (\<lambda>vmad. (''VMAD'', vmad)) vmad_uvs) s3
     else Inr s3) = Inr s'"
    by (elim ebindE)
  have g1: "grows s s1"
    using a by (rule write_chunks_grows) (simp add: layer_tags_def)
  have g2: "grows s1 s2"
  proof (cases "m_vertex_colors mesh \<noteq> []")
    case True
    with b obtain vcs where "write_chunks (map (\<lambda>vmad. (''VMAD'', vmad)) vcs) s1 = Inr s2"
      by (auto simp add: ebind_eq_Inr)
    then show ?thesis by (rule write_chunks_grows) (auto simp add: layer_tags_def)
  next
    case False
    with b show ?thesis by (simp add: grows_refl)
  qed
  have g3: "grows s2 s3"
    using c by (rule write_chunks_grows) (simp add: layer_tags_def)
  have g4: "grows s3 s'"
  proof (cases "m_uv_layers mesh \<noteq> []")
    case True
    with d have "write_chunks (map (\<lambda>vmad. (''VMAD'', vmad)) vmad_uvs) s3 = Inr s'"
      by simp
    then show ?thesis by (rule write_chunks_grows) (auto simp add: layer_tags_def)
  next
    case False
    with d show ?thesis by (simp add: grows_refl)
  qed
  from g1 g2 g3 g4 show ?thesis by (blast intro: grows_trans)
qed

lemma export_mesh_grows:
  assumes "export_mesh H self objdups matmeshes names x (md, ch, surfs, li)
           = Inr (md', ch', surfs', li')"
  shows "grows (md, ch) (md', ch')"
proof -
  obtain i mesh where x: "x = (i, mesh)" by (cases x)
  from assms[unfolded export_mesh_def x prod.case]
  obtain layr pnts bbox pols ptag vmad_uvs s' where
    w: "write_layer H mesh layr pnts bbox pols ptag vmad_uvs (md, ch) = Inr s'"
    and r: "(case s' of (meshdata, chunks) \<Rightarrow> Inr (meshdata, chunks, surfs', li')) = Inr (md', ch', surfs', li')"
    apply (elim ebindE)
    apply (simp only: prod.case split: prod.splits)
    apply (simp only: sum.inject prod.inject)
    apply (elim conjE)
    apply hypsubst
    apply (simp only: prod.case)
    done
  from r have "s' = (md', ch')" by (cases s') simp
  with write_layer_grows[OF w] show ?thesis by simp
qed


lemma export_meshes_grow:
  assumes "for_each (export_mesh H self objdups matmeshes names) xs (md, ch, surfs, li)
           = Inr (md', ch', surfs', li')"
  shows "grows (md, ch) (md', ch')"
  using assms
proof (induction xs arbitrary: md ch surfs li)
  case Nil
  then show ?case by (simp add: grows_refl)
next
  case (Cons x xs)
  from Cons.prems obtain s1 where
    a: "export_mesh H self objdups matmeshes names x (md, ch, surfs, li) = Inr s1"
    and b: "for_each (export_mesh H self objdups matmeshes names) xs s1 = Inr (md', ch', surfs', li')"
    by (auto simp add: ebind_eq_Inr)
  obtain md1 ch1 surfs1 li1 where s1: "s1 = (md1, ch1, surfs1, li1)"
    by (cases s1) auto
  from export_mesh_grows[OF a[unfolded s1]] Cons.IH[OF b[unfolded s1]]
  show ?case by (rule grows_trans)
qed

lemma write_surfs_eq_Inr:
  assumes "for_each (\<lambda>surf outfile. write_chunk outfile ''SURF'' (PyBytes surf)) surfs f = Inr out"
  shows "out = f @ concat (map (\<lambda>s. chunk_bytes (''SURF'', s)) surfs)
         \<and> (\<forall>s \<in> set surfs. length s < 4294967296)"
  using assms
proof (induction surfs arbitrary: f)
  case Nil
  then show ?case by simp
next
  case (Cons s surfs)
  from Cons.prems obtain f1 where
    w: "write_chunk f ''SURF'' (PyBytes s) = Inr f1"
    and r: "for_each (\<lambda>surf outfile. write_chunk outfile ''SURF'' (PyBytes surf)) surfs f1 = Inr out"
    by (auto simp add: ebind_eq_Inr)
  from w have "length s < 4294967296" "f1 = f @ chunk_bytes (''SURF'', s)"
    by (simp_all add: write_chunk_eq_Inr)
  with Cons.IH[OF r] show ?case by simp
qed

lemma write_header_eq_Inr:
  "write_header f chunks = Inr out \<longleftrightarrow>
     sum_list (map len chunks) + length chunks * 8 + 4 < 4294967296
     \<and> out = f @ bytes_lit ''FORM''
               @ be_bytes 4 (sum_list (map len chunks) + length chunks * 8 + 4)
               @ bytes_lit ''LWO2''"
proof -
  let ?n = "sum_list (map len chunks) + length chunks * 8 + 4"
  have e: "sum_list (map len chunks) + length chunks * 8 + length ''FORM'' = ?n"
    by simp
  have "write_header f chunks
        = ebind (pack_L (int ?n)) (\<lambda>l. Inr (f @ bytes_lit ''FORM'' @ l @ bytes_lit ''LWO2''))"
    unfolding write_header_def Let_def e ..
  then show ?thesis
    by (auto simp only: ebind_eq_Inr pack_L_eq_Inr sum.inject)
qed

lemma write_file_eq_Inr:
  assumes "write_file chunks tags meshdata [] surfs = Inr outfile"
  shows "\<exists>tagsb. tags = PyBytes tagsb \<and> length tagsb < 4294967296
     \<and> sum_list (map len chunks) + length chunks * 8 + 4 < 4294967296
     \<and> (\<forall>s \<in> set surfs. length s < 4294967296)
     \<and> outfile = bytes_lit ''FORM''
         @ be_bytes 4 (sum_list (map len chunks) + length chunks * 8 + 4)
         @ bytes_lit ''LWO2''
         @ chunk_bytes (''TAGS'', tagsb) @ meshdata
         @ concat (map (\<lambda>s. chunk_bytes (''SURF'', s)) surfs)"
proof -
  from assms[unfolded write_file_def] obtain f1 f2 where
    h: "write_header [] chunks = Inr f1"
    and t: "write_chunk f1 ''TAGS'' tags = Inr f2"
    and s: "for_each (\<lambda>surf outfile. write_chunk outfile ''SURF'' (PyBytes surf)) surfs
              (f2 @ meshdata) = Inr outfile"
    by (auto simp add: ebind_eq_Inr Let_def)
  from t obtain tagsb where tb: "tags = PyBytes tagsb" "length tagsb < 4294967296"
    "f2 = f1 @ chunk_bytes (''TAGS'', tagsb)"
    by (auto simp add: write_chunk_eq_Inr)
  from h write_surfs_eq_Inr[OF s] tb show ?thesis
    by (simp add: write_header_eq_Inr)
qed


lemma known_tag_lengths:
  assumes "t \<in> insert ''TAGS'' (insert ''SURF'' layer_tags)"
  shows "length (utf8 t) = 4" "utf8 t = bytes_lit t"
  using assms by (auto simp add: layer_tags_def utf8_def utf8_char_def bytes_lit_def)

lemma export_file_stream:
  assumes "export_file H self objdups meshes filename obj = Inr (fn, outfile)"
  shows "\<exists>cs. outfile = bytes_lit ''FORM'' @ be_bytes 4 (formSize (map snd cs))
                    @ bytes_lit ''LWO2'' @ concat (map chunk_bytes cs)
          \<and> formSize (map snd cs) < 4294967296
          \<and> (\<forall>(t, c) \<in> set cs. t \<in> insert ''TAGS'' (insert ''SURF'' layer_tags)
                \<and> length c < 4294967296)"
proof -
  from assms[unfolded export_file_def] obtain mm names where
    "get_used_material_names self meshes = Inr (mm, names)"
    and rest: "(let clips = ([] :: pydata list);
         tags = generate_tags names;
         surfs = [];
         chunks = [tags];
         meshdata = [];
         layer_index = 0
     in
     ebind (for_each (export_mesh H self objdups mm names)
              (enumerate 0 meshes) (meshdata, chunks, surfs, layer_index))
       (\<lambda>(meshdata, chunks, surfs, layer_index).
     let chunks = chunks @ clips;
         chunks = chunks @ map PyBytes surfs;
         filename = output_filename H self filename obj
     in
     ebind (write_file chunks tags meshdata clips surfs) (\<lambda>outfile.
     Inr (filename, outfile)))) = Inr (fn, outfile)"
    by (auto simp add: ebind_eq_Inr)
  let ?tags = "generate_tags names"
  from rest obtain meshdata chunks surfs li where
    loop: "for_each (export_mesh H self objdups mm names) (enumerate 0 meshes)
             ([], [?tags], [], 0) = Inr (meshdata, chunks, surfs, li)"
    and wr: "write_file (chunks @ map PyBytes surfs) ?tags meshdata [] surfs = Inr outfile"
    by (auto simp add: Let_def ebind_eq_Inr)
  from export_meshes_grow[OF loop] obtain named where
    named: "meshdata = concat (map chunk_bytes named)"
    "chunks = [?tags] @ map (\<lambda>(t, c). PyBytes c) named"
    "\<forall>(t, c) \<in> set named. t \<in> layer_tags \<and> length c < 4294967296"
    unfolding grows_def by auto
  from write_file_eq_Inr[OF wr] obtain tagsb where
    tb: "?tags = PyBytes tagsb" "length tagsb < 4294967296"
    and size: "sum_list (map len (chunks @ map PyBytes surfs))
               + length (chunks @ map PyBytes surfs) * 8 + 4 < 4294967296"
    and ss: "\<forall>s \<in> set surfs. length s < 4294967296"
    and out: "outfile = bytes_lit ''FORM''
         @ be_bytes 4 (sum_list (map len (chunks @ map PyBytes surfs))
                       + length (chunks @ map PyBytes surfs) * 8 + 4)
         @ bytes_lit ''LWO2''
         @ chunk_bytes (''TAGS'', tagsb) @ meshdata
         @ concat (map (\<lambda>s. chunk_bytes (''SURF'', s)) surfs)"
    by blast
  let ?cs = "(''TAGS'', tagsb) # named @ map (\<lambda>s. (''SURF'', s)) surfs"
  have l1: "(\<Sum>x\<leftarrow>named. len (case x of (t, c) \<Rightarrow> PyBytes c))
            = (\<Sum>x\<leftarrow>named. length (snd x))"
    by (induction named) auto
  have l2: "map len (map PyBytes surfs) = map length surfs"
    by (induction surfs) auto
  have fs: "sum_list (map len (chunks @ map PyBytes surfs))
            + length (chunks @ map PyBytes surfs) * 8 + 4 = formSize (map snd ?cs)"
    unfolding named(2) tb(1) formSize_def
    by (simp add: l1 l2 comp_def)
  have "outfile = bytes_lit ''FORM'' @ be_bytes 4 (formSize (map snd ?cs))
                    @ bytes_lit ''LWO2'' @ concat (map chunk_bytes ?cs)"
    unfolding out fs named(1) by (simp add: comp_def)
  moreover have "formSize (map snd ?cs) < 4294967296"
    using size unfolding fs .
  moreover have "\<forall>(t, c) \<in> set ?cs. t \<in> insert ''TAGS'' (insert ''SURF'' layer_tags)
                \<and> length c < 4294967296"
    using named(3) tb(2) ss by auto
  ultimately show ?thesis by blast
qed


lemma length_stream:
  assumes "\<forall>(t, c) \<in> set cs. length (utf8 t) = 4"
  shows "length (concat (map chunk_bytes cs)) + 4 = formSize (map snd cs)"
  using assms
  by (induction cs) (auto simp add: formSize_def length_chunk_bytes)

lemma export_file_parsed:
  assumes "export_file H self objdups meshes filename obj = Inr (fn, outfile)"
  shows "\<exists>cs. parse_chunks (drop 12 outfile) = Some (map (\<lambda>(t, c). (bytes_lit t, c)) cs)
          \<and> take 12 outfile = bytes_lit ''FORM'' @ be_bytes 4 (formSize (map snd cs))
                                @ bytes_lit ''LWO2''
          \<and> formSize (map snd cs) < 4294967296
          \<and> length outfile = formSize (map snd cs) + 8
          \<and> (\<forall>(t, c) \<in> set cs. t \<in> insert ''TAGS'' (insert ''SURF'' layer_tags))"
proof -
  from export_file_stream[OF assms] obtain cs where
    out: "outfile = bytes_lit ''FORM'' @ be_bytes 4 (formSize (map snd cs))
                    @ bytes_lit ''LWO2'' @ concat (map chunk_bytes cs)"
    and size: "formSize (map snd cs) < 4294967296"
    and cs: "\<forall>(t, c) \<in> set cs. t \<in> insert ''TAGS'' (insert ''SURF'' layer_tags)
                \<and> length c < 4294967296"
    by blast
  have k: "\<forall>(t, c) \<in> set cs. length (utf8 t) = 4 \<and> length c < 4294967296"
    using cs known_tag_lengths(1) by fast
  have hl: "length (bytes_lit ''FORM'' @ be_bytes 4 (formSize (map snd cs)) @ bytes_lit ''LWO2'') = 12"
    by (simp add: bytes_lit_def length_be_bytes)
  have d: "drop 12 outfile = concat (map chunk_bytes cs)"
    unfolding out using hl by (simp add: bytes_lit_def length_be_bytes)
  have t: "take 12 outfile = bytes_lit ''FORM'' @ be_bytes 4 (formSize (map snd cs))
                                @ bytes_lit ''LWO2''"
    unfolding out using hl by (simp add: bytes_lit_def length_be_bytes)
  have "map (\<lambda>(t, c). (utf8 t, c)) cs = map (\<lambda>(t, c). (bytes_lit t, c)) cs"
    using cs known_tag_lengths(2) by (intro map_cong) auto
  with parse_chunks_stream[OF k] d
  have p: "parse_chunks (drop 12 outfile) = Some (map (\<lambda>(t, c). (bytes_lit t, c)) cs)"
    by simp
  have "length outfile = 12 + length (concat (map chunk_bytes cs))"
    unfolding out using hl by (simp add: bytes_lit_def length_be_bytes)
  with length_stream[of cs] k have l: "length outfile = formSize (map snd cs) + 8"
    by fastforce
  from p t size l cs show ?thesis by blast
qed

text \<open>When every material slot of the exported meshes is empty, \<open>generate_tags\<close> returns
  a \<open>str\<close> and writing the TAGS chunk raises \<open>TypeError\<close>: that pass writes no file.\<close>

lemma empty_tag_table_no_file:
  "write_file chunks (generate_tags []) meshdata clips surfs \<noteq> Inr outfile"
proof
  assume a: "write_file chunks (generate_tags []) meshdata clips surfs = Inr outfile"
  then obtain f1 f2 where "write_chunk f1 ''TAGS'' (generate_tags []) = Inr f2"
    unfolding write_file_def by (auto simp add: ebind_eq_Inr)
  then show False
    by (simp add: write_chunk_eq_Inr generate_tags_def)
qed

text \<open>
  C2. A file the export writes starts with \<open>FORM\<close>, the big-endian \<open>u32\<close> \<open>formSize\<close> and
  \<open>LWO2\<close>, where \<open>formSize\<close> is the sum of the lengths of the chunk payloads in the file plus
  8 for each chunk plus 4, and the file is \<open>formSize + 8\<close> bytes long. The chunks are read back
  from the file itself.
\<close>

theorem header_size_law:
  assumes "export_file H self objdups meshes filename obj = Inr (fn, outfile)"
  shows "\<exists>chunks. parse_chunks (drop 12 outfile) = Some chunks
     \<and> take 12 outfile = bytes_lit ''FORM'' @ be_bytes 4 (formSize (map snd chunks))
                           @ bytes_lit ''LWO2''
     \<and> formSize (map snd chunks)
         = sum_list (map (\<lambda>c. length (snd c)) chunks) + 8 * length chunks + 4
     \<and> be_decode (take 4 (drop 4 outfile)) = formSize (map snd chunks)
     \<and> length outfile = formSize (map snd chunks) + 8"
proof -
  from export_file_parsed[OF assms] obtain cs where
    p: "parse_chunks (drop 12 outfile) = Some (map (\<lambda>(t, c). (bytes_lit t, c)) cs)"
    and t: "take 12 outfile = bytes_lit ''FORM'' @ be_bytes 4 (formSize (map snd cs))
                                @ bytes_lit ''LWO2''"
    and size: "formSize (map snd cs) < 4294967296"
    and l: "length outfile = formSize (map snd cs) + 8"
    by blast
  let ?chunks = "map (\<lambda>(t, c). (bytes_lit t, c)) cs"
  have s: "map snd ?chunks = map snd cs" by (induction cs) auto
  have "take 4 (drop 4 outfile) = take 4 (drop 4 (take 12 outfile))"
    by (simp add: drop_take)
  also have "\<dots> = be_bytes 4 (formSize (map snd cs))"
    unfolding t by (simp add: bytes_lit_def length_be_bytes)
  finally have "be_decode (take 4 (drop 4 outfile)) = formSize (map snd cs)"
    using size be_decode_be_bytes[of "formSize (map snd cs)" 4] by simp
  moreover have "formSize (map snd ?chunks)
         = sum_list (map (\<lambda>c. length (snd c)) ?chunks) + 8 * length ?chunks + 4"
    by (simp add: formSize_def comp_def)
  ultimately show ?thesis using p t l unfolding s[symmetric] by blast
qed

theorem header_size_law_witness:
  "\<exists>fn outfile chunks.
     export_file example_host (execute_self (LwoExport False False 1 ''/tmp/out''))
       [\<lparr>o_name = ''Triangle'', o_data = example_red\<rparr>] [example_red] ''/tmp/out''
       \<lparr>o_name = ''Triangle'', o_data = example_red\<rparr> = Inr (fn, outfile)
     \<and> parse_chunks (drop 12 outfile) = Some chunks
     \<and> take 12 outfile = bytes_lit ''FORM'' @ [0, 0, 1, 2] @ bytes_lit ''LWO2''
     \<and> formSize (map snd chunks) = 258
     \<and> length outfile = 266"
proof -
  let ?obj = "\<lparr>o_name = ''Triangle'', o_data = example_red\<rparr>"
  let ?r = "export_file example_host (execute_self (LwoExport False False (1::real) ''/tmp/out''))
              [?obj] [example_red] ''/tmp/out'' ?obj"
  have ok: "isl ?r = False" by code_simp
  have len: "length (snd (projr ?r)) = 266" by code_simp
  obtain fn outfile where r: "?r = Inr (fn, outfile)"
    using ok by (cases ?r) auto
  from header_size_law[OF r] obtain chunks where
    c: "parse_chunks (drop 12 outfile) = Some chunks"
    "take 12 outfile = bytes_lit ''FORM'' @ be_bytes 4 (formSize (map snd chunks))
                           @ bytes_lit ''LWO2''"
    "length outfile = formSize (map snd chunks) + 8"
    by blast
  from len r have "length outfile = 266" by simp
  with c(3) have f: "formSize (map snd chunks) = 258" by simp
  have "be_bytes 4 258 = [0, 0, 1, 2]" by (simp add: be_bytes_4)
  with c f r \<open>length outfile = 266\<close> show ?thesis by auto
qed


subsection \<open>No CLIP chunk\<close>

lemma known_tag_not_clip:
  assumes "t \<in> insert ''TAGS'' (insert ''SURF'' layer_tags)"
  shows "bytes_lit t \<noteq> bytes_lit ''CLIP''"
  using assms by (auto simp add: layer_tags_def bytes_lit_def)

lemma export_objects_files:
  assumes "export_objects H self objdups rest meshes filename files = Inr files'"
  shows "\<forall>f \<in> set files'. f \<in> set files
           \<or> (\<exists>meshes' filename' obj.
                 export_file H self objdups meshes' filename' obj = Inr f)"
  using assms
proof (induction rest arbitrary: meshes filename files)
  case Nil
  then show ?case by simp
next
  case (Cons obj rest)
  let ?meshes = "if option_batch self then [o_data obj] else meshes"
  from Cons.prems obtain fn outfile where
    e: "export_file H self objdups ?meshes filename obj = Inr (fn, outfile)"
    and r: "(if \<not> option_batch self then Inr (files @ [(fn, outfile)])
             else export_objects H self objdups rest ?meshes fn (files @ [(fn, outfile)]))
            = Inr files'"
    by (auto simp add: Let_def ebind_eq_Inr)
  show ?case
  proof (cases "option_batch self")
    case True
    with r have "export_objects H self objdups rest ?meshes fn (files @ [(fn, outfile)])
                 = Inr files'" by simp
    from Cons.IH[OF this] e show ?thesis by auto
  next
    case False
    with r have "files' = files @ [(fn, outfile)]" by simp
    with e show ?thesis by auto
  qed
qed

text \<open>
  C10. No file the export writes contains a \<open>CLIP\<close> chunk: \<open>clips\<close> is the empty list at the
  start of every pass and nothing appends to it, so the chunks read back from each written
  file carry only the tags TAGS, LAYR, PNTS, BBOX, VMAD, POLS, PTAG and SURF.
\<close>

theorem no_clip_chunk:
  assumes "execute H self objdups = Inr files"
  shows "\<forall>(fn, outfile) \<in> set files.
           \<exists>chunks. parse_chunks (drop 12 outfile) = Some chunks
             \<and> bytes_lit ''CLIP'' \<notin> fst ` set chunks
             \<and> fst ` set chunks \<subseteq> bytes_lit ` file_tags"
proof -
  have "\<exists>chunks. parse_chunks (drop 12 outfile) = Some chunks
             \<and> bytes_lit ''CLIP'' \<notin> fst ` set chunks
             \<and> fst ` set chunks \<subseteq> bytes_lit ` file_tags"
    if "(fn, outfile) \<in> set files" for fn outfile
  proof -
    from assms have "export_objects H (execute_self self) objdups objdups
        (if \<not> option_batch (execute_self self) then map o_data objdups else [])
        (filepath (execute_self self)) [] = Inr files"
      by (simp add: execute_def LwoExport_write_def Let_def)
    from export_objects_files[OF this] that obtain meshes' filename' obj where
      "export_file H (execute_self self) objdups meshes' filename' obj = Inr (fn, outfile)"
      by auto
    from export_file_parsed[OF this, folded file_tags_def] obtain cs where
      p: "parse_chunks (drop 12 outfile) = Some (map (\<lambda>(t, c). (bytes_lit t, c)) cs)"
      and cs: "\<forall>(t, c) \<in> set cs. t \<in> file_tags"
      by blast
    let ?chunks = "map (\<lambda>(t, c). (bytes_lit t, c)) cs"
    have sub: "fst ` set ?chunks \<subseteq> bytes_lit ` file_tags"
    proof
      fix x assume "x \<in> fst ` set ?chunks"
      then obtain t c where tc: "(t, c) \<in> set cs" and x: "x = bytes_lit t"
        by auto
      from cs tc have "t \<in> file_tags" by blast
      with x show "x \<in> bytes_lit ` file_tags" by (rule image_eqI)
    qed
    have "bytes_lit ''CLIP'' \<notin> bytes_lit ` file_tags"
    proof
      assume "bytes_lit ''CLIP'' \<in> bytes_lit ` file_tags"
      then obtain t where "t \<in> file_tags" "bytes_lit ''CLIP'' = bytes_lit t"
        by (rule imageE)
      with known_tag_not_clip[of t] show False
        unfolding file_tags_def by simp
    qed
    with sub have "bytes_lit ''CLIP'' \<notin> fst ` set ?chunks"
      by (rule_tac notI) (erule notE, erule subsetD, assumption)
    with p sub show ?thesis
      by (intro exI[of _ ?chunks] conjI)
  qed
  note h = this
  show ?thesis
  proof (intro ballI)
    fix f assume f: "f \<in> set files"
    obtain fn outfile where e: "f = (fn, outfile)" by (cases f)
    from h[OF f[unfolded e]]
    show "case f of (fn, outfile) \<Rightarrow>
           \<exists>chunks. parse_chunks (drop 12 outfile) = Some chunks
             \<and> bytes_lit ''CLIP'' \<notin> fst ` set chunks
             \<and> fst ` set chunks \<subseteq> bytes_lit ` file_tags"
      unfolding e prod.case .
  qed
qed

theorem no_clip_chunk_witness:
  "\<exists>f1 f2 c1 c2.
     execute example_host (LwoExport False True 1 ''/tmp/out.lwo'')
       [\<lparr>o_name = ''A'', o_data = example_red\<rparr>, \<lparr>o_name = ''B'', o_data = example_two\<rparr>]
       = Inr [(''/tmp/A.lwo'', f1), (''/tmp/B.lwo'', f2)]
     \<and> parse_chunks (drop 12 f1) = Some c1 \<and> bytes_lit ''CLIP'' \<notin> fst ` set c1
     \<and> parse_chunks (drop 12 f2) = Some c2 \<and> bytes_lit ''CLIP'' \<notin> fst ` set c2"
proof -
  let ?r = "execute example_host (LwoExport False True (1::real) ''/tmp/out.lwo'')
       [\<lparr>o_name = ''A'', o_data = example_red\<rparr>, \<lparr>o_name = ''B'', o_data = example_two\<rparr>]"
  have ok: "isl ?r = False" by code_simp
  have names: "map fst (projr ?r) = [''/tmp/A.lwo'', ''/tmp/B.lwo'']" by code_simp
  obtain files where r: "?r = Inr files" using ok by (cases ?r) auto
  with names obtain f1 f2 where f: "files = [(''/tmp/A.lwo'', f1), (''/tmp/B.lwo'', f2)]"
    by (auto simp add: map_eq_Cons_conv)
  from no_clip_chunk[OF r] f
  obtain c1 c2 where "parse_chunks (drop 12 f1) = Some c1" "bytes_lit ''CLIP'' \<notin> fst ` set c1"
    "parse_chunks (drop 12 f2) = Some c2" "bytes_lit ''CLIP'' \<notin> fst ` set c2"
    by auto
  with r f show ?thesis by blast
qed

end
